theory Spec2Isabelle
  imports Complex_Main "HOL-Library.Log_Nat"
begin

section \<open>Data model of \<^verbatim>\<open>endpoint_monitor.py\<close>\<close>

subsection \<open>Python values\<close>

text \<open>
  A Python \<^verbatim>\<open>float\<close>: a finite value (written as the real number it denotes), the two
  infinities, or not-a-number. \<^verbatim>\<open>float('inf')\<close> is \<open>PosInf\<close>.
\<close>

datatype pyfloat = Finite real | PosInf | NegInf | NaN

text \<open>
  \<^verbatim>\<open>x < n\<close> for a float \<^verbatim>\<open>x\<close> and an int \<^verbatim>\<open>n\<close>: the comparison of the two numbers, false
  for \<^verbatim>\<open>inf\<close> and for \<^verbatim>\<open>nan\<close>, true for \<^verbatim>\<open>-inf\<close>.
\<close>

fun flt_lt_int :: "pyfloat \<Rightarrow> int \<Rightarrow> bool" where
  "flt_lt_int (Finite x) n = (x < of_int n)"
| "flt_lt_int PosInf n = False"
| "flt_lt_int NegInf n = True"
| "flt_lt_int NaN n = False"

text \<open>
  Arithmetic on finite floats. A binary64 float has 53 significant bits, and an operation
  returns the float nearest to its exact result, a tie going to the even significand:
  \<open>fl64 x\<close> is that float for the exact result \<open>x\<close>, where \<open>ilog2 x\<close> is the exponent
  \<open>e\<close> with \<open>2^e \<le> x < 2^(e+1)\<close>. (Overflow and subnormal results are left out: the
  values rounded below lie between \<open>2^-1022\<close> and \<open>2^1024\<close>.)
\<close>

definition ilog2 :: "real \<Rightarrow> int" where
  "ilog2 x = (if 1 \<le> x then bitlen \<lfloor>x\<rfloor> - 1 else - bitlen (\<lceil>1 / x\<rceil> - 1))"

definition round_half_even :: "real \<Rightarrow> int" where
  "round_half_even x =
     (let f = \<lfloor>x\<rfloor>; d = x - of_int f
      in if d < 1 / 2 then f else if 1 / 2 < d then f + 1 else if even f then f else f + 1)"

definition fl64 :: "real \<Rightarrow> real" where
  "fl64 x =
     (if x = 0 then 0
      else let e = ilog2 \<bar>x\<bar>
           in of_int (round_half_even (x * 2 powi (52 - e))) * 2 powi (e - 52))"

text \<open>
  \<^verbatim>\<open>a / b\<close> on two ints (true division: the float nearest to the quotient), \<^verbatim>\<open>x * n\<close> on a
  float and an int, and \<^verbatim>\<open>round(x)\<close>, which rounds a float half to even and returns an int.
\<close>

definition int_truediv :: "int \<Rightarrow> int \<Rightarrow> real" where
  "int_truediv a b = fl64 (of_int a / of_int b)"

definition float_mul_int :: "real \<Rightarrow> int \<Rightarrow> real" where
  "float_mul_int x n = fl64 (x * of_int n)"

definition py_round :: "real \<Rightarrow> int" where
  "py_round x = round_half_even x"

text \<open>A \<^verbatim>\<open>datetime\<close>, as seconds on the clock that \<^verbatim>\<open>datetime.now()\<close> reads.\<close>

type_synonym datetime = real

text \<open>
  The exception classes that reach this program. \<open>CancelledError\<close> and
  \<open>KeyboardInterrupt\<close> derive from \<^verbatim>\<open>BaseException\<close> only; the others are subclasses of
  \<^verbatim>\<open>Exception\<close> (\<open>ClientConnectorError\<close>: connection refused; \<open>ClientConnectorDNSError\<close>:
  the name does not resolve; \<open>TimeoutError\<close>: the \<^verbatim>\<open>ClientTimeout\<close> ran out;
  \<open>ClientResponseError\<close>: malformed response; \<open>ClientSSLError\<close>: TLS failure;
  \<open>InvalidURL\<close>: the client refuses the URL).
\<close>

datatype exc =
    ClientConnectorError | ClientConnectorDNSError | TimeoutError | ClientResponseError
  | ClientSSLError | InvalidURL | ValueError | CancelledError | KeyboardInterrupt

fun is_Exception :: "exc \<Rightarrow> bool" where
  "is_Exception CancelledError = False"
| "is_Exception KeyboardInterrupt = False"
| "is_Exception _ = True"

text \<open>
  What the program reads from the Python runtime it runs in:
  \<^item> \<open>class_def_now\<close>: the value \<^verbatim>\<open>datetime.now()\<close> returned when the body of class
    \<^verbatim>\<open>HealthCheckResult\<close> was executed (line 114: the default of a dataclass field is evaluated
    once, with the class);
  \<^item> \<open>check_bracketed_netloc\<close>: whether \<^verbatim>\<open>urllib.parse\<close> accepts a netloc that holds both
    \<^verbatim>\<open>[\<close> and \<^verbatim>\<open>]\<close>, rather than raising ValueError. Which netlocs it accepts depends on the
    interpreter: older ones refuse none, CPython 3.11.10 wants an IPv6 or IPvFuture address
    between the brackets (\<^verbatim>\<open>_check_bracketed_host\<close>), and later ones also refuse text before
    \<^verbatim>\<open>[\<close> or between \<^verbatim>\<open>]\<close> and the port (\<^verbatim>\<open>_check_bracketed_netloc\<close>);
  \<^item> \<open>checknetloc\<close>: whether \<^verbatim>\<open>urllib.parse._checknetloc\<close> accepts a netloc with non-ASCII
    characters (its NFKC check), rather than raising ValueError.
\<close>

record runtime =
  class_def_now :: datetime
  check_bracketed_netloc :: "string \<Rightarrow> bool"
  checknetloc :: "string \<Rightarrow> bool"

subsection \<open>\<^verbatim>\<open>urllib.parse.urlparse(url).netloc\<close>\<close>

text \<open>
  The part of \<^verbatim>\<open>urlsplit\<close> that decides \<^verbatim>\<open>netloc\<close>, in its order:
  leading characters up to U+0020 are stripped, tab, CR and LF are removed everywhere, a
  scheme (\<^verbatim>\<open>url.find(':') > 0\<close>, first character an ASCII letter, all characters in
  \<^verbatim>\<open>scheme_chars\<close>) is split off with its colon, and if what is left starts with \<^verbatim>\<open>//\<close>,
  \<^verbatim>\<open>_splitnetloc\<close> takes everything after it up to the first of \<^verbatim>\<open>/ ? #\<close>. An unmatched
  bracket raises ValueError; a netloc with both brackets, or with non-ASCII characters, is
  checked by the interpreter.
\<close>

definition is_c0_or_space :: "char \<Rightarrow> bool" where
  "is_c0_or_space c = (of_char c \<le> (32::nat))"

definition is_unsafe_byte :: "char \<Rightarrow> bool" where
  "is_unsafe_byte c = (c = CHR 0x09 \<or> c = CHR 0x0D \<or> c = CHR 0x0A)"

definition isascii :: "char \<Rightarrow> bool" where
  "isascii c = (of_char c < (128::nat))"

definition ascii_letters :: string where
  "ascii_letters = ''abcdefghijklmnopqrstuvwxyzABCDEFGHIJKLMNOPQRSTUVWXYZ''"

definition scheme_chars :: string where
  "scheme_chars = ascii_letters @ ''0123456789+-.''"

definition strip_scheme :: "string \<Rightarrow> string" where
  "strip_scheme u =
     (let pre = takeWhile (\<lambda>c. c \<noteq> CHR '':'') u in
      if CHR '':'' \<in> set u \<and> pre \<noteq> [] \<and> hd u \<in> set ascii_letters
         \<and> list_all (\<lambda>c. c \<in> set scheme_chars) pre
      then drop (length pre + 1) u
      else u)"

definition is_netloc_delim :: "char \<Rightarrow> bool" where
  "is_netloc_delim c = (c = CHR ''/'' \<or> c = CHR ''?'' \<or> c = CHR ''#'')"

definition splitnetloc :: "string \<Rightarrow> string" where
  "splitnetloc u = takeWhile (\<lambda>c. \<not> is_netloc_delim c) (drop 2 u)"

definition urlparse_netloc :: "runtime \<Rightarrow> string \<Rightarrow> exc + string" where
  "urlparse_netloc rt u0 =
     (let u1 = filter (\<lambda>c. \<not> is_unsafe_byte c) (dropWhile is_c0_or_space u0);
          u2 = strip_scheme u1
      in if take 2 u2 = ''//'' then
           (let netloc = splitnetloc u2;
                lb = (CHR ''['' \<in> set netloc);
                rb = (CHR '']'' \<in> set netloc)
            in if (lb \<and> \<not> rb) \<or> (rb \<and> \<not> lb) then Inl ValueError
               else if lb \<and> rb \<and> \<not> check_bracketed_netloc rt netloc
                 then Inl ValueError
               else if netloc \<noteq> [] \<and> \<not> list_all isascii netloc \<and> \<not> checknetloc rt netloc
                 then Inl ValueError
               else Inr netloc)
         else Inr [])"

subsection \<open>\<^verbatim>\<open>EndpointConfig\<close> and \<^verbatim>\<open>HealthCheckResult\<close>\<close>

text \<open>
  The field \<^verbatim>\<open>method\<close> is named \<open>http_method\<close> here (a reserved word of the prover).
  \<^verbatim>\<open>headers\<close> is a dictionary of strings or \<^verbatim>\<open>None\<close>, \<^verbatim>\<open>body\<close> a string or \<^verbatim>\<open>None\<close>.
\<close>

record EndpointConfig =
  name :: string
  url :: string
  http_method :: string
  headers :: "(string \<times> string) list option"
  body :: "string option"

text \<open>\<^verbatim>\<open>get_domain\<close>: \<^verbatim>\<open>return urlparse(self.url).netloc\<close>.\<close>

definition get_domain :: "runtime \<Rightarrow> EndpointConfig \<Rightarrow> exc + string" where
  "get_domain rt ep = urlparse_netloc rt (url ep)"

record HealthCheckResult =
  endpoint_name :: string
  domain :: string
  response_time_ms :: pyfloat
  status_code :: int
  timestamp :: datetime

text \<open>
  The property \<^verbatim>\<open>is_up\<close>:
  \<^verbatim>\<open>return (200 <= self.status_code < 300 and self.response_time_ms < 500)\<close>.
  The chained comparison is the conjunction of its two halves.
\<close>

definition is_up :: "HealthCheckResult \<Rightarrow> bool" where
  "is_up r =
     ((200 \<le> status_code r \<and> status_code r < 300) \<and> flt_lt_int (response_time_ms r) 500)"

subsection \<open>\<^verbatim>\<open>HealthChecker\<close>\<close>

text \<open>
  The keyword arguments of one \<^verbatim>\<open>session.request(...)\<close> call; \<open>req_timeout\<close> is the
  \<^verbatim>\<open>total\<close> of the \<^verbatim>\<open>aiohttp.ClientTimeout\<close>, in seconds.
\<close>

record http_request =
  req_method :: string
  req_url :: string
  req_headers :: "(string \<times> string) list option"
  req_json :: "string option"
  req_timeout :: nat

text \<open>
  \<^verbatim>\<open>self.results\<close> is a \<^verbatim>\<open>defaultdict(list)\<close>: a map from domain to the list of results, where
  reading a missing key with \<^verbatim>\<open>[ ]\<close> yields a fresh empty list.
\<close>

record HealthChecker =
  endpoints :: "EndpointConfig list"
  results :: "string \<rightharpoonup> HealthCheckResult list"
  timeout :: nat

definition HealthChecker_init :: "EndpointConfig list \<Rightarrow> HealthChecker" where
  "HealthChecker_init eps = \<lparr>endpoints = eps, results = Map.empty, timeout = 5\<rparr>"

text \<open>
  \<^verbatim>\<open>HealthCheckResult(endpoint_name=..., domain=..., response_time_ms=..., status_code=...)\<close>:
  the call gives no \<^verbatim>\<open>timestamp\<close>, so the field takes the default of line 114.
\<close>

definition HealthCheckResult_init ::
  "runtime \<Rightarrow> string \<Rightarrow> string \<Rightarrow> pyfloat \<Rightarrow> int \<Rightarrow> HealthCheckResult" where
  "HealthCheckResult_init rt n d t s =
     \<lparr>endpoint_name = n, domain = d, response_time_ms = t, status_code = s,
      timestamp = class_def_now rt\<rparr>"

text \<open>
  What one probe meets: the two readings of \<^verbatim>\<open>time.time()\<close> (lines 154 and 163) and what
  \<^verbatim>\<open>session.request\<close> does, which is to answer with a status or to raise.
\<close>

datatype request_outcome = Response int | Raised exc

record probe =
  t_start :: real
  t_end :: real
  outcome :: request_outcome

text \<open>\<^verbatim>\<open>json=endpoint.body if endpoint.body else None\<close>: an empty string counts as false.\<close>

definition request_args :: "HealthChecker \<Rightarrow> EndpointConfig \<Rightarrow> http_request" where
  "request_args hc ep =
     \<lparr>req_method = http_method ep, req_url = url ep, req_headers = headers ep,
      req_json = (case body ep of None \<Rightarrow> None | Some b \<Rightarrow> if b = [] then None else Some b),
      req_timeout = timeout hc\<rparr>"

text \<open>The \<^verbatim>\<open>except Exception\<close> branch (lines 170 to 177).\<close>

definition down_result :: "runtime \<Rightarrow> EndpointConfig \<Rightarrow> exc + HealthCheckResult" where
  "down_result rt ep =
     (case get_domain rt ep of
        Inl e \<Rightarrow> Inl e
      | Inr d \<Rightarrow> Inr (HealthCheckResult_init rt (name ep) d PosInf 0))"

text \<open>
  \<^verbatim>\<open>check_endpoint\<close> returns the requests it handed to the session and either its result or
  the exception that leaves it. An exception raised in the \<^verbatim>\<open>try\<close> block (by the request, or
  by \<^verbatim>\<open>get_domain\<close> while the result is built) is caught when it is an \<^verbatim>\<open>Exception\<close>; one
  raised in the handler is not caught again. The response time is
  \<^verbatim>\<open>(time.time() - start_time) * 1000\<close>, a finite float, written here as the exact product:
  the roundings of the two float operations are left out, and nothing below depends on more
  than the value being finite.
\<close>

definition check_endpoint ::
  "runtime \<Rightarrow> HealthChecker \<Rightarrow> EndpointConfig \<Rightarrow> probe
     \<Rightarrow> http_request list \<times> (exc + HealthCheckResult)" where
  "check_endpoint rt hc ep p =
     ([request_args hc ep],
      (case outcome p of
         Response st \<Rightarrow>
           (case get_domain rt ep of
              Inr d \<Rightarrow>
                Inr (HealthCheckResult_init rt (name ep) d
                       (Finite ((t_end p - t_start p) * 1000)) st)
            | Inl e \<Rightarrow> if is_Exception e then down_result rt ep else Inl e)
       | Raised e \<Rightarrow> if is_Exception e then down_result rt ep else Inl e))"

text \<open>
  \<^verbatim>\<open>asyncio.gather(*tasks)\<close>: the list of the tasks' results in the order of the tasks, or
  an exception of a task that raised (here the first in the order of the tasks).
\<close>

fun gather :: "(exc + 'a) list \<Rightarrow> exc + 'a list" where
  "gather [] = Inr []"
| "gather (Inl e # xs) = Inl e"
| "gather (Inr x # xs) = (case gather xs of Inl e \<Rightarrow> Inl e | Inr ys \<Rightarrow> Inr (x # ys))"

text \<open>
  \<^verbatim>\<open>self.results[result.domain].append(result)\<close>: \<open>bucket m d\<close> is the list that
  \<^verbatim>\<open>m[d]\<close> reads from the \<^verbatim>\<open>defaultdict\<close> (empty for a key that is not there yet), and the
  key holds the longer list afterwards.
\<close>

definition bucket :: "(string \<rightharpoonup> 'a list) \<Rightarrow> string \<Rightarrow> 'a list" where
  "bucket m d = (case m d of None \<Rightarrow> [] | Some l \<Rightarrow> l)"

definition record_result ::
  "(string \<rightharpoonup> HealthCheckResult list) \<Rightarrow> HealthCheckResult
     \<Rightarrow> (string \<rightharpoonup> HealthCheckResult list)" where
  "record_result m r = m(domain r \<mapsto> bucket m (domain r) @ [r])"

text \<open>
  One cycle. \<open>net i\<close> is what the probe of the \<open>i\<close>-th endpoint meets. \<open>cycle_results\<close> is
  the value of \<^verbatim>\<open>await asyncio.gather(*tasks)\<close>, \<open>check_all_endpoints\<close> the checker after
  the loop of lines 195 and 196 (or the exception that leaves the method).
\<close>

definition cycle_results ::
  "runtime \<Rightarrow> HealthChecker \<Rightarrow> (nat \<Rightarrow> probe) \<Rightarrow> exc + HealthCheckResult list" where
  "cycle_results rt hc net =
     gather (map (\<lambda>i. snd (check_endpoint rt hc (endpoints hc ! i) (net i)))
                 [0..<length (endpoints hc)])"

definition check_all_endpoints ::
  "runtime \<Rightarrow> HealthChecker \<Rightarrow> (nat \<Rightarrow> probe) \<Rightarrow> exc + HealthChecker" where
  "check_all_endpoints rt hc net =
     (case cycle_results rt hc net of
        Inl e \<Rightarrow> Inl e
      | Inr rs \<Rightarrow> Inr (hc\<lparr>results := foldl record_result (results hc) rs\<rparr>))"

text \<open>
  \<^verbatim>\<open>get_availability_stats\<close>, per bucket:
  \<^verbatim>\<open>up_count = sum(1 for check in checks if check.is_up)\<close>,
  \<^verbatim>\<open>total_count = len(checks)\<close>,
  \<^verbatim>\<open>availability = (up_count / total_count * 100) if total_count > 0 else 0\<close>,
  \<^verbatim>\<open>stats[domain] = round(availability)\<close>.
\<close>

definition availability :: "HealthCheckResult list \<Rightarrow> int" where
  "availability checks =
     (let up_count = sum_list (map (\<lambda>check. 1) (filter is_up checks));
          total_count = int (length checks)
      in py_round (if total_count > 0
                   then float_mul_int (int_truediv up_count total_count) 100
                   else 0))"

text \<open>
  The method returns the new dictionary \<^verbatim>\<open>stats\<close>, with one entry per item of
  \<^verbatim>\<open>self.results\<close>; the second component is the checker after the call.
\<close>

definition get_availability_stats :: "HealthChecker \<Rightarrow> (string \<rightharpoonup> int) \<times> HealthChecker" where
  "get_availability_stats hc = ((\<lambda>d. map_option availability (results hc d)), hc)"

text \<open>Several cycles in a row, one network behaviour per cycle.\<close>

fun run_cycles ::
  "runtime \<Rightarrow> HealthChecker \<Rightarrow> (nat \<Rightarrow> probe) list \<Rightarrow> exc + HealthChecker" where
  "run_cycles rt hc [] = Inr hc"
| "run_cycles rt hc (net # nets) =
     (case check_all_endpoints rt hc net of
        Inl e \<Rightarrow> Inl e
      | Inr hc' \<Rightarrow> run_cycles rt hc' nets)"

text \<open>
  Everything recorded since the checker was created: the results of the cycles, in the
  order of the cycles.
\<close>

fun recorded :: "runtime \<Rightarrow> HealthChecker \<Rightarrow> (nat \<Rightarrow> probe) list \<Rightarrow> HealthCheckResult list" where
  "recorded rt hc [] = []"
| "recorded rt hc (net # nets) =
     (case cycle_results rt hc net of
        Inl e \<Rightarrow> []
      | Inr rs \<Rightarrow> rs @ recorded rt hc nets)"

subsection \<open>\<^verbatim>\<open>MonitoringService\<close>\<close>

text \<open>
  \<open>reported\<close> is what \<^verbatim>\<open>run_check_cycle\<close> has printed so far: per cycle the dictionary
  \<^verbatim>\<open>stats\<close>, of which it prints one line per item.
\<close>

record MonitoringService =
  health_checker :: HealthChecker
  running :: bool
  reported :: "(string \<rightharpoonup> int) list"

text \<open>
  \<^verbatim>\<open>MonitoringService.__init__\<close>, for the list of endpoints its parser returned.
\<close>

definition MonitoringService_init :: "EndpointConfig list \<Rightarrow> MonitoringService" where
  "MonitoringService_init eps =
     \<lparr>health_checker = HealthChecker_init eps, running = False, reported = []\<rparr>"

definition run_check_cycle ::
  "runtime \<Rightarrow> MonitoringService \<Rightarrow> (nat \<Rightarrow> probe) \<Rightarrow> exc + MonitoringService" where
  "run_check_cycle rt svc net =
     (case check_all_endpoints rt (health_checker svc) net of
        Inl e \<Rightarrow> Inl e
      | Inr hc \<Rightarrow>
          (case get_availability_stats hc of
             (stats, hc') \<Rightarrow>
               Inr (svc\<lparr>health_checker := hc', reported := reported svc @ [stats]\<rparr>)))"

definition stop :: "MonitoringService \<Rightarrow> MonitoringService" where
  "stop svc = svc\<lparr>running := False\<rparr>"

text \<open>
  The coroutine \<^verbatim>\<open>run\<close>, by the places where it can be suspended. It is \<open>NotStarted\<close>, or
  waiting in \<^verbatim>\<open>await self.run_check_cycle()\<close> (\<open>InCycle\<close>), or waiting in
  \<^verbatim>\<open>await asyncio.sleep(15)\<close> (\<open>InSleep\<close>), or it has returned, or an exception has left it.
  Other code (a call of \<^verbatim>\<open>stop\<close>) runs only while the coroutine is suspended. \<open>cycle_no\<close>
  counts the cycles started.
\<close>

datatype run_loc = NotStarted | InCycle | InSleep | Returned | Raising exc

record run_state =
  service :: MonitoringService
  loc :: run_loc
  cycle_no :: nat

datatype event = Resume | Stop

text \<open>
  \<^verbatim>\<open>MonitoringService.run\<close>, one stretch at a time: \<open>run_step\<close> takes the coroutine from
  one suspension to the next (event \<open>Resume\<close>), and \<open>exec\<close> drives it through a list of
  events. \<open>Resume\<close>: the coroutine runs on to its next suspension. From \<open>NotStarted\<close> it sets
  \<^verbatim>\<open>self.running = True\<close>, passes the \<^verbatim>\<open>while\<close> test and enters the first cycle. From
  \<open>InCycle\<close> the cycle finishes (\<open>world n\<close> is the network of cycle \<open>n\<close>) and the sleep
  starts. From \<open>InSleep\<close> the \<^verbatim>\<open>while self.running\<close> test is made: the next cycle starts, or
  the coroutine returns. \<open>Stop\<close>: \<^verbatim>\<open>service.stop()\<close> is called.
\<close>

definition run_step :: "runtime \<Rightarrow> (nat \<Rightarrow> nat \<Rightarrow> probe) \<Rightarrow> run_state \<Rightarrow> run_state" where
  "run_step rt world s =
     (case loc s of
        NotStarted \<Rightarrow>
          s\<lparr>service := (service s)\<lparr>running := True\<rparr>, loc := InCycle,
            cycle_no := cycle_no s + 1\<rparr>
      | InCycle \<Rightarrow>
          (case run_check_cycle rt (service s) (world (cycle_no s)) of
             Inl e \<Rightarrow> s\<lparr>loc := Raising e\<rparr>
           | Inr svc \<Rightarrow> s\<lparr>service := svc, loc := InSleep\<rparr>)
      | InSleep \<Rightarrow>
          if running (service s) then s\<lparr>loc := InCycle, cycle_no := cycle_no s + 1\<rparr>
          else s\<lparr>loc := Returned\<rparr>
      | Returned \<Rightarrow> s
      | Raising e \<Rightarrow> s)"

fun step :: "runtime \<Rightarrow> (nat \<Rightarrow> nat \<Rightarrow> probe) \<Rightarrow> event \<Rightarrow> run_state \<Rightarrow> run_state" where
  "step rt world Resume s = run_step rt world s"
| "step rt world Stop s = s\<lparr>service := stop (service s)\<rparr>"

fun exec :: "runtime \<Rightarrow> (nat \<Rightarrow> nat \<Rightarrow> probe) \<Rightarrow> event list \<Rightarrow> run_state \<Rightarrow> run_state" where
  "exec rt world [] s = s"
| "exec rt world (ev # evs) s = exec rt world evs (step rt world ev s)"

subsection \<open>The domain in the words of the specification\<close>

text \<open>
  For comparison with \<open>get_domain\<close>: a URL written from its parts, and the domain as the
  specification describes it, the host plus the port when the port is not the default one
  of the scheme.
\<close>

definition spec_default_port :: "string \<Rightarrow> string" where
  "spec_default_port scheme =
     (if scheme = ''http'' then ''80'' else if scheme = ''https'' then ''443'' else [])"

definition spec_domain :: "string \<Rightarrow> string \<Rightarrow> string \<Rightarrow> string" where
  "spec_domain scheme host port =
     (if port = [] \<or> port = spec_default_port scheme then host else host @ '':'' @ port)"

definition url_of_parts :: "string \<Rightarrow> string \<Rightarrow> string \<Rightarrow> string \<Rightarrow> string \<Rightarrow> string" where
  "url_of_parts scheme userinfo host port rest =
     scheme @ ''://'' @ (if userinfo = [] then [] else userinfo @ ''@'') @ host
       @ (if port = [] then [] else '':'' @ port) @ rest"

text \<open>
  Rounding an exact value to the nearest integer, a tie going up or going down (\<open>round_half_even\<close>
  above is the third such rule).
\<close>

definition spec_round_half_up :: "real \<Rightarrow> int" where
  "spec_round_half_up x = \<lfloor>x + 1 / 2\<rfloor>"

definition spec_round_half_down :: "real \<Rightarrow> int" where
  "spec_round_half_down x = \<lceil>x - 1 / 2\<rceil>"

subsection \<open>The body of a request on the wire\<close>

text \<open>
  \<^verbatim>\<open>aiohttp\<close> sends the \<^verbatim>\<open>json=\<close> argument of a request as \<^verbatim>\<open>json.dumps(value)\<close>. For a string
  that is the string in double quotes, with the double quote, the backslash and every
  character outside the printable ASCII range escaped (characters are code points below 256
  here).
\<close>

definition hex_digit :: "nat \<Rightarrow> char" where
  "hex_digit n = ''0123456789abcdef'' ! n"

definition json_escape_char :: "char \<Rightarrow> string" where
  "json_escape_char c =
     (if c = CHR 0x22 then [CHR 0x5C, CHR 0x22]
      else if c = CHR 0x5C then [CHR 0x5C, CHR 0x5C]
      else if c = CHR 0x0A then [CHR 0x5C, CHR ''n'']
      else if c = CHR 0x0D then [CHR 0x5C, CHR ''r'']
      else if c = CHR 0x09 then [CHR 0x5C, CHR ''t'']
      else if c = CHR 0x08 then [CHR 0x5C, CHR ''b'']
      else if c = CHR 0x0C then [CHR 0x5C, CHR ''f'']
      else if 32 \<le> (of_char c :: nat) \<and> (of_char c :: nat) \<le> 126 then [c]
      else [CHR 0x5C, CHR ''u'', CHR ''0'', CHR ''0'',
            hex_digit (of_char c div 16), hex_digit (of_char c mod 16)])"

definition json_dumps :: "string \<Rightarrow> string" where
  "json_dumps s = [CHR 0x22] @ concat (map json_escape_char s) @ [CHR 0x22]"

definition request_body :: "http_request \<Rightarrow> string option" where
  "request_body req = map_option json_dumps (req_json req)"

subsection \<open>Sample values\<close>

text \<open>Concrete inputs for the closed examples below.\<close>

definition sample_runtime :: runtime where
  "sample_runtime =
     \<lparr>class_def_now = 1700000000, check_bracketed_netloc = (\<lambda>n. True),
      checknetloc = (\<lambda>n. True)\<rparr>"

definition sample_endpoint :: EndpointConfig where
  "sample_endpoint =
     \<lparr>name = ''api'', url = ''https://example.com/health'', http_method = ''GET'',
      headers = None, body = None\<rparr>"

definition sample_post :: EndpointConfig where
  "sample_post =
     \<lparr>name = ''create'', url = ''https://example.com/items'', http_method = ''POST'',
      headers = Some [(''content-type'', ''application/json'')], body = Some ''{}''\<rparr>"

definition sample_world :: "nat \<Rightarrow> nat \<Rightarrow> probe" where
  "sample_world n i = \<lparr>t_start = 0, t_end = 0.1, outcome = Response 200\<rparr>"

definition sample_start :: run_state where
  "sample_start =
     \<lparr>service = MonitoringService_init [sample_endpoint], loc = NotStarted, cycle_no = 0\<rparr>"

definition sample_plain :: EndpointConfig where
  "sample_plain =
     \<lparr>name = ''plain'', url = ''http://example.com/a'', http_method = ''GET'',
      headers = None, body = None\<rparr>"

definition sample_port80 :: EndpointConfig where
  "sample_port80 =
     \<lparr>name = ''port80'', url = ''http://example.com:80/b'', http_method = ''GET'',
      headers = None, body = None\<rparr>"

definition sample_web :: EndpointConfig where
  "sample_web =
     \<lparr>name = ''web'', url = ''https://example.com/'', http_method = ''GET'',
      headers = None, body = None\<rparr>"

definition sample_timeout :: "nat \<Rightarrow> probe" where
  "sample_timeout i = \<lparr>t_start = 0, t_end = 5, outcome = Raised TimeoutError\<rparr>"

definition sample_up :: HealthCheckResult where
  "sample_up =
     \<lparr>endpoint_name = ''api'', domain = ''example.com'', response_time_ms = Finite 100,
      status_code = 200, timestamp = 1700000000\<rparr>"

definition sample_down :: HealthCheckResult where
  "sample_down =
     \<lparr>endpoint_name = ''api'', domain = ''example.com'', response_time_ms = PosInf,
      status_code = 0, timestamp = 1700000000\<rparr>"

section \<open>The UP/DOWN rule\<close>

text \<open>
  C2. A result is UP exactly when its status code is in 200..299 and its response time is
  below 500 ms (for a float this means: a finite value below 500, or \<^verbatim>\<open>-inf\<close>; never
  \<^verbatim>\<open>inf\<close> or \<^verbatim>\<open>nan\<close>). At the boundaries: status 200 with 499.999 ms is UP, status 200
  with 500.0 ms is DOWN, status 299 is UP with any time below 500 ms, and status 300 is DOWN
  whatever the time.
\<close>

theorem is_up_iff:
  "(is_up r \<longleftrightarrow>
      200 \<le> status_code r \<and> status_code r < 300 \<and>
      (case response_time_ms r of
         Finite x \<Rightarrow> x < 500 | PosInf \<Rightarrow> False | NegInf \<Rightarrow> True | NaN \<Rightarrow> False))
   \<and> is_up (r\<lparr>status_code := 200, response_time_ms := Finite 499.999\<rparr>)
   \<and> \<not> is_up (r\<lparr>status_code := 200, response_time_ms := Finite 500.0\<rparr>)
   \<and> (\<forall>t. t < 500 \<longrightarrow> is_up (r\<lparr>status_code := 299, response_time_ms := Finite t\<rparr>))
   \<and> (\<forall>t. \<not> is_up (r\<lparr>status_code := 300, response_time_ms := t\<rparr>))"
  by (cases "response_time_ms r") (simp_all add: is_up_def)

theorem is_up_iff_witness:
  "is_up \<lparr>endpoint_name = ''api'', domain = ''example.com'',
          response_time_ms = Finite 120, status_code = 299, timestamp = 0\<rparr>
   \<and> (120::real) < 500"
  using is_up_iff [of "\<lparr>endpoint_name = ''api'', domain = ''example.com'',
          response_time_ms = Finite 120, status_code = 204, timestamp = 0\<rparr>"]
  by simp

section \<open>One probe\<close>

lemmas netloc_eval =
  get_domain_def urlparse_netloc_def strip_scheme_def splitnetloc_def
  is_c0_or_space_def is_unsafe_byte_def isascii_def ascii_letters_def scheme_chars_def
  is_netloc_delim_def

lemmas probe_eval =
  check_endpoint_def down_result_def HealthCheckResult_init_def request_args_def

lemma bitlen_numeral_simps:
  "bitlen 1 = 1"
  "bitlen (numeral (Num.Bit0 n)) = bitlen (numeral n) + 1"
  "bitlen (numeral (Num.Bit1 n)) = bitlen (numeral n) + 1"
  by (subst compute_bitlen, simp)+

lemmas float_eval =
  int_truediv_def float_mul_int_def py_round_def fl64_def ilog2_def round_half_even_def
  bitlen_numeral_simps Let_def

lemma sample_domain: "get_domain sample_runtime sample_endpoint = Inr ''example.com''"
  by (simp add: netloc_eval sample_endpoint_def sample_runtime_def)

lemma sample_fields:
  "name sample_endpoint = ''api''" "class_def_now sample_runtime = 1700000000"
  by (simp_all add: sample_endpoint_def sample_runtime_def)

lemma bad_url_domain: "get_domain rt (ep\<lparr>url := ''http://[::1''\<rparr>) = Inl ValueError"
  by (simp add: netloc_eval)

text \<open>
  C3, as amended. A result of \<^verbatim>\<open>check_endpoint\<close> with response time \<^verbatim>\<open>+inf\<close> has status code
  0; and if the HTTP client did not report the status 0 for a response, a result with status
  code 0 has response time \<^verbatim>\<open>+inf\<close>, so that the two sentinels go together.
\<close>

theorem check_endpoint_sentinels:
  assumes "snd (check_endpoint rt hc ep p) = Inr r"
  shows "(response_time_ms r = PosInf \<longrightarrow> status_code r = 0)
       \<and> (outcome p \<noteq> Response 0 \<longrightarrow> (status_code r = 0 \<longleftrightarrow> response_time_ms r = PosInf))"
  using assms
  by (auto simp: probe_eval split: request_outcome.splits sum.splits if_splits)

theorem check_endpoint_sentinels_witness:
  "snd (check_endpoint sample_runtime (HealthChecker_init [sample_endpoint]) sample_endpoint
          \<lparr>t_start = 10, t_end = 15, outcome = Raised TimeoutError\<rparr>)
   = Inr \<lparr>endpoint_name = ''api'', domain = ''example.com'', response_time_ms = PosInf,
          status_code = 0, timestamp = 1700000000\<rparr>
   \<and> outcome \<lparr>t_start = 10, t_end = 15, outcome = Raised TimeoutError\<rparr> \<noteq> Response 0
   \<and> ((0::int) = 0 \<longleftrightarrow> PosInf = PosInf)"
  using check_endpoint_sentinels [of sample_runtime "HealthChecker_init [sample_endpoint]"
      sample_endpoint "\<lparr>t_start = 10, t_end = 15, outcome = Raised TimeoutError\<rparr>"
      "\<lparr>endpoint_name = ''api'', domain = ''example.com'', response_time_ms = PosInf,
          status_code = 0, timestamp = 1700000000\<rparr>"]
  by (simp add: probe_eval sample_domain) (simp add: sample_endpoint_def sample_runtime_def)

text \<open>
  C3 as stated fails where the client reports a response with status 0 (a status line
  \<^verbatim>\<open>HTTP/1.1 000\<close>): the result has status code 0 and the finite response time 250 ms.
\<close>

theorem status_zero_with_finite_time_counterexample:
  "snd (check_endpoint sample_runtime (HealthChecker_init [sample_endpoint]) sample_endpoint
          \<lparr>t_start = 10, t_end = 10.25, outcome = Response 0\<rparr>)
   = Inr \<lparr>endpoint_name = ''api'', domain = ''example.com'', response_time_ms = Finite 250,
          status_code = 0, timestamp = 1700000000\<rparr>
   \<and> Finite 250 \<noteq> PosInf"
  by (simp add: probe_eval sample_domain) (simp add: sample_endpoint_def sample_runtime_def)

text \<open>
  C4 fails on the code. For the URL \<^verbatim>\<open>http://[::1\<close> (an unmatched bracket) \<^verbatim>\<open>urlparse\<close> raises
  ValueError, in the \<^verbatim>\<open>try\<close> block and again in the \<^verbatim>\<open>except\<close> handler, where nothing catches it:
  whether the request fails (the client refusing the URL, a timeout) or is answered,
  \<^verbatim>\<open>check_endpoint\<close> raises ValueError instead of returning a DOWN result, and the cycle
  raises with it.
\<close>

theorem check_endpoint_raises_on_unparsable_url:
  "snd (check_endpoint rt hc (ep\<lparr>url := ''http://[::1''\<rparr>) (p\<lparr>outcome := Raised InvalidURL\<rparr>))
     = Inl ValueError
   \<and> snd (check_endpoint rt hc (ep\<lparr>url := ''http://[::1''\<rparr>) (p\<lparr>outcome := Raised TimeoutError\<rparr>))
     = Inl ValueError
   \<and> snd (check_endpoint rt hc (ep\<lparr>url := ''http://[::1''\<rparr>) (p\<lparr>outcome := Response st\<rparr>))
     = Inl ValueError
   \<and> check_all_endpoints rt (HealthChecker_init [ep\<lparr>url := ''http://[::1''\<rparr>])
         (\<lambda>i. p\<lparr>outcome := Raised InvalidURL\<rparr>) = Inl ValueError"
  by (simp add: check_endpoint_def down_result_def bad_url_domain cycle_results_def
        check_all_endpoints_def HealthChecker_init_def)

text \<open>
  C9 fails on the code. Every result of \<^verbatim>\<open>check_endpoint\<close> carries as its timestamp the time
  at which the class \<^verbatim>\<open>HealthCheckResult\<close> was defined, not the time of the probe: two probes
  made 15 seconds apart return results with the same timestamp.
\<close>

theorem timestamp_is_class_definition_time:
  "(case snd (check_endpoint rt hc ep p) of
      Inl e \<Rightarrow> True
    | Inr r \<Rightarrow> timestamp r = class_def_now rt)
   \<and> snd (check_endpoint sample_runtime hc sample_endpoint
            \<lparr>t_start = 100, t_end = 100.2, outcome = Response 200\<rparr>)
     = Inr \<lparr>endpoint_name = ''api'', domain = ''example.com'', response_time_ms = Finite 200,
            status_code = 200, timestamp = 1700000000\<rparr>
   \<and> snd (check_endpoint sample_runtime hc sample_endpoint
            \<lparr>t_start = 115.2, t_end = 115.5, outcome = Response 200\<rparr>)
     = Inr \<lparr>endpoint_name = ''api'', domain = ''example.com'', response_time_ms = Finite 300,
            status_code = 200, timestamp = 1700000000\<rparr>"
proof -
  have "case snd (check_endpoint rt hc ep p) of
          Inl e \<Rightarrow> True | Inr r \<Rightarrow> timestamp r = class_def_now rt"
    by (simp add: probe_eval split: request_outcome.splits sum.splits)
  moreover have "class_def_now sample_runtime = 1700000000" "name sample_endpoint = ''api''"
    by (simp_all add: sample_runtime_def sample_endpoint_def)
  ultimately show ?thesis
    by (simp add: probe_eval sample_domain)
qed

text \<open>
  The failure path where it works: for an endpoint whose URL \<^verbatim>\<open>urlparse\<close> accepts, a request
  that raises any \<^verbatim>\<open>Exception\<close> gives the DOWN result with status code 0 and response time
  \<^verbatim>\<open>+inf\<close>, under the endpoint's name and domain.
\<close>

theorem check_endpoint_failure_is_down:
  assumes "get_domain rt ep = Inr d" and "is_Exception e"
  shows "snd (check_endpoint rt hc ep (p\<lparr>outcome := Raised e\<rparr>))
           = Inr \<lparr>endpoint_name = name ep, domain = d, response_time_ms = PosInf,
                  status_code = 0, timestamp = class_def_now rt\<rparr>
       \<and> \<not> is_up \<lparr>endpoint_name = name ep, domain = d, response_time_ms = PosInf,
                  status_code = 0, timestamp = class_def_now rt\<rparr>"
  using assms by (simp add: probe_eval is_up_def)

theorem check_endpoint_failure_is_down_witness:
  "get_domain sample_runtime sample_endpoint = Inr ''example.com''
   \<and> is_Exception ClientConnectorError
   \<and> snd (check_endpoint sample_runtime (HealthChecker_init [sample_endpoint]) sample_endpoint
            \<lparr>t_start = 3, t_end = 4, outcome = Raised ClientConnectorError\<rparr>)
       = Inr \<lparr>endpoint_name = ''api'', domain = ''example.com'', response_time_ms = PosInf,
              status_code = 0, timestamp = 1700000000\<rparr>"
  using check_endpoint_failure_is_down [of sample_runtime sample_endpoint "''example.com''"
          ClientConnectorError "HealthChecker_init [sample_endpoint]"
          "\<lparr>t_start = 3, t_end = 4, outcome = Raised ClientConnectorError\<rparr>"]
  by (simp add: sample_domain sample_fields)

section \<open>The domain of an endpoint\<close>

lemma scheme_char_facts:
  "c \<in> set scheme_chars \<Longrightarrow> c \<noteq> CHR '':'' \<and> \<not> is_unsafe_byte c"
  by (auto simp: scheme_chars_def ascii_letters_def is_unsafe_byte_def)

lemma letter_not_space: "c \<in> set ascii_letters \<Longrightarrow> \<not> is_c0_or_space c"
  by (auto simp: ascii_letters_def is_c0_or_space_def)

lemma delim_not_unsafe: "is_netloc_delim c \<Longrightarrow> \<not> is_unsafe_byte c"
  by (auto simp: is_netloc_delim_def is_unsafe_byte_def)

lemma takeWhile_stop:
  assumes "\<forall>c\<in>set xs. P c" and "ys = [] \<or> \<not> P (hd ys)"
  shows "takeWhile P (xs @ ys) = xs"
proof (cases ys)
  case Nil
  with assms show ?thesis by simp
next
  case (Cons y ys')
  with assms have "\<not> P y" by simp
  with assms(1) Cons show ?thesis by (simp add: takeWhile_append2)
qed

lemma filter_keeps_head:
  assumes "rest = [] \<or> is_netloc_delim (hd rest)"
  shows "filter (\<lambda>c. \<not> is_unsafe_byte c) rest = [] \<or>
         is_netloc_delim (hd (filter (\<lambda>c. \<not> is_unsafe_byte c) rest))"
  using assms by (cases rest) (auto simp: delim_not_unsafe)

lemma netloc_cases:
  assumes s1: "scheme \<noteq> []" and s2: "hd scheme \<in> set ascii_letters"
    and s3: "\<forall>c\<in>set scheme. c \<in> set scheme_chars"
    and a: "\<forall>c\<in>set auth. \<not> is_netloc_delim c"
    and r: "rest = [] \<or> is_netloc_delim (hd rest)"
  shows "urlparse_netloc rt (scheme @ ''://'' @ auth @ rest) = Inl ValueError
         \<or> urlparse_netloc rt (scheme @ ''://'' @ auth @ rest)
             = Inr (filter (\<lambda>c. \<not> is_unsafe_byte c) auth)"
    and "list_all isascii auth \<Longrightarrow> CHR ''['' \<notin> set auth \<Longrightarrow> CHR '']'' \<notin> set auth \<Longrightarrow>
           urlparse_netloc rt (scheme @ ''://'' @ auth @ rest)
             = Inr (filter (\<lambda>c. \<not> is_unsafe_byte c) auth)"
proof -
  define rest' where "rest' = filter (\<lambda>c. \<not> is_unsafe_byte c) rest"
  define auth' where "auth' = filter (\<lambda>c. \<not> is_unsafe_byte c) auth"
  have r': "rest' = [] \<or> \<not> \<not> is_netloc_delim (hd rest')"
    using filter_keeps_head [OF r] by (simp add: rest'_def)
  have a': "\<forall>c\<in>set auth'. \<not> is_netloc_delim c" using a by (simp add: auth'_def)
  have lead: "dropWhile is_c0_or_space (scheme @ ''://'' @ auth @ rest)
                = scheme @ ''://'' @ auth @ rest"
    using s1 s2 letter_not_space by (cases scheme) auto
  have fs: "filter (\<lambda>c. \<not> is_unsafe_byte c) scheme = scheme"
    using s3 scheme_char_facts by (simp add: filter_id_conv)
  have sep: "\<not> is_unsafe_byte (CHR '':'')" "\<not> is_unsafe_byte (CHR ''/'')"
    by (simp_all add: is_unsafe_byte_def)
  have u1: "filter (\<lambda>c. \<not> is_unsafe_byte c) (scheme @ ''://'' @ auth @ rest)
              = scheme @ CHR '':'' # (''//'' @ auth' @ rest')"
    by (simp add: fs auth'_def rest'_def sep)
  have pre: "takeWhile (\<lambda>c. c \<noteq> CHR '':'') (scheme @ CHR '':'' # (''//'' @ auth' @ rest')) = scheme"
    using s3 scheme_char_facts by (intro takeWhile_stop) auto
  have hd1: "hd (scheme @ CHR '':'' # (''//'' @ auth' @ rest')) = hd scheme"
    using s1 by simp
  have strip: "strip_scheme (scheme @ CHR '':'' # (''//'' @ auth' @ rest')) = ''//'' @ auth' @ rest'"
    unfolding strip_scheme_def Let_def pre hd1
    using s1 s2 s3 by (simp add: list_all_iff)
  have split: "splitnetloc (''//'' @ auth' @ rest') = auth'"
  proof -
    have "takeWhile (\<lambda>c. \<not> is_netloc_delim c) (auth' @ rest') = auth'"
      using a' r' by (intro takeWhile_stop) auto
    then show ?thesis by (simp add: splitnetloc_def)
  qed
  have eq: "urlparse_netloc rt (scheme @ ''://'' @ auth @ rest) =
              (if (CHR ''['' \<in> set auth' \<and> CHR '']'' \<notin> set auth')
                  \<or> (CHR '']'' \<in> set auth' \<and> CHR ''['' \<notin> set auth') then Inl ValueError
               else if CHR ''['' \<in> set auth' \<and> CHR '']'' \<in> set auth'
                       \<and> \<not> check_bracketed_netloc rt auth' then Inl ValueError
               else if auth' \<noteq> [] \<and> \<not> list_all isascii auth' \<and> \<not> checknetloc rt auth'
                 then Inl ValueError
               else Inr auth')"
    unfolding urlparse_netloc_def lead u1 strip Let_def split
    by simp
  show "urlparse_netloc rt (scheme @ ''://'' @ auth @ rest) = Inl ValueError
         \<or> urlparse_netloc rt (scheme @ ''://'' @ auth @ rest)
             = Inr (filter (\<lambda>c. \<not> is_unsafe_byte c) auth)"
    unfolding eq auth'_def [symmetric] by auto
  show "urlparse_netloc rt (scheme @ ''://'' @ auth @ rest)
          = Inr (filter (\<lambda>c. \<not> is_unsafe_byte c) auth)"
    if "list_all isascii auth" "CHR ''['' \<notin> set auth" "CHR '']'' \<notin> set auth"
  proof -
    have "list_all isascii auth'" "CHR ''['' \<notin> set auth'" "CHR '']'' \<notin> set auth'"
      using that by (simp_all add: auth'_def list_all_iff)
    then show ?thesis unfolding eq auth'_def [symmetric] by simp
  qed
qed

lemma digit_facts:
  "c \<in> set ''0123456789'' \<Longrightarrow>
     \<not> is_unsafe_byte c \<and> \<not> is_netloc_delim c \<and> isascii c \<and> c \<noteq> CHR ''['' \<and> c \<noteq> CHR '']''"
  by (auto simp: is_unsafe_byte_def is_netloc_delim_def isascii_def)

lemma authority_filter:
  assumes "\<forall>c\<in>set port. c \<in> set ''0123456789''"
  shows "filter (\<lambda>c. \<not> is_unsafe_byte c) (host @ (if port = [] then [] else '':'' @ port))
           = filter (\<lambda>c. \<not> is_unsafe_byte c) host @ (if port = [] then [] else '':'' @ port)"
proof -
  have "filter (\<lambda>c. \<not> is_unsafe_byte c) port = port"
    using assms digit_facts by (simp add: filter_id_conv)
  moreover have "\<not> is_unsafe_byte (CHR '':'')" by (simp add: is_unsafe_byte_def)
  ultimately show ?thesis by simp
qed

text \<open>
  C7, as amended. The domain of an endpoint is a function of its URL alone. For an absolute
  URL without user information, \<open>scheme://host\<close> or \<open>scheme://host:port\<close> followed by nothing
  or by a path, query or fragment, whenever \<^verbatim>\<open>urlparse\<close> accepts the URL the domain is the
  host as written (less any tab, CR or LF, which \<^verbatim>\<open>urlparse\<close> removes), followed by the colon
  and the port whenever a port is written, whether or not it is the default port of the
  scheme, and nothing else. \<^verbatim>\<open>urlparse\<close> accepts every such URL whose host is ASCII text
  without brackets.
\<close>

theorem get_domain_is_netloc:
  assumes "scheme \<noteq> []" and "hd scheme \<in> set ascii_letters"
    and "\<forall>c\<in>set scheme. c \<in> set scheme_chars"
    and "\<forall>c\<in>set host. \<not> is_netloc_delim c \<and> c \<noteq> CHR ''@''"
    and "\<forall>c\<in>set port. c \<in> set ''0123456789''"
    and "rest = [] \<or> is_netloc_delim (hd rest)"
  shows "(\<forall>d. get_domain rt (ep\<lparr>url := url_of_parts scheme [] host port rest\<rparr>) = Inr d \<longrightarrow>
            d = filter (\<lambda>c. \<not> is_unsafe_byte c) host @ (if port = [] then [] else '':'' @ port))
       \<and> ((\<forall>c\<in>set host. isascii c \<and> c \<noteq> CHR ''['' \<and> c \<noteq> CHR '']'') \<longrightarrow>
            get_domain rt (ep\<lparr>url := url_of_parts scheme [] host port rest\<rparr>)
              = Inr (filter (\<lambda>c. \<not> is_unsafe_byte c) host
                       @ (if port = [] then [] else '':'' @ port)))
       \<and> (\<forall>ep'. url ep' = url ep \<longrightarrow> get_domain rt ep' = get_domain rt ep)"
proof -
  define auth where "auth = host @ (if port = [] then [] else '':'' @ port)"
  define N where
    "N = filter (\<lambda>c. \<not> is_unsafe_byte c) host @ (if port = [] then [] else '':'' @ port)"
  define U where "U = url_of_parts scheme [] host port rest"
  have colon: "\<not> is_netloc_delim (CHR '':'')" by (simp add: is_netloc_delim_def)
  have pd: "\<forall>c\<in>set port. \<not> is_netloc_delim c \<and> isascii c \<and> c \<noteq> CHR ''['' \<and> c \<noteq> CHR '']''"
    using assms(5) digit_facts by blast
  have a: "\<forall>c\<in>set auth. \<not> is_netloc_delim c"
  proof
    fix c assume "c \<in> set auth"
    then have "c \<in> set host \<or> c = CHR '':'' \<or> c \<in> set port"
      by (cases "port = []") (auto simp: auth_def)
    with assms(4) pd colon show "\<not> is_netloc_delim c" by blast
  qed
  have u: "U = scheme @ ''://'' @ auth @ rest"
    by (simp add: U_def url_of_parts_def auth_def)
  have f: "filter (\<lambda>c. \<not> is_unsafe_byte c) auth = N"
    unfolding auth_def N_def by (rule authority_filter [OF assms(5)])
  have g: "get_domain rt (ep\<lparr>url := U\<rparr>) = urlparse_netloc rt (scheme @ ''://'' @ auth @ rest)"
    by (simp add: get_domain_def u)
  from netloc_cases(1) [OF assms(1,2,3) a assms(6), of rt]
  have c1: "get_domain rt (ep\<lparr>url := U\<rparr>) = Inl ValueError
            \<or> get_domain rt (ep\<lparr>url := U\<rparr>) = Inr N"
    by (simp only: g f)
  have A: "\<forall>d. get_domain rt (ep\<lparr>url := U\<rparr>) = Inr d \<longrightarrow> d = N"
    using c1 by auto
  have B: "get_domain rt (ep\<lparr>url := U\<rparr>) = Inr N"
    if h: "\<forall>c\<in>set host. isascii c \<and> c \<noteq> CHR ''['' \<and> c \<noteq> CHR '']''"
  proof -
    have asc: "isascii (CHR '':'')" by (simp add: isascii_def)
    have "\<forall>c\<in>set auth. isascii c \<and> c \<noteq> CHR ''['' \<and> c \<noteq> CHR '']''"
    proof
      fix c assume "c \<in> set auth"
      then have "c \<in> set host \<or> c = CHR '':'' \<or> c \<in> set port"
        by (cases "port = []") (auto simp: auth_def)
      with h pd asc show "isascii c \<and> c \<noteq> CHR ''['' \<and> c \<noteq> CHR '']''" by auto
    qed
    then have "list_all isascii auth" "CHR ''['' \<notin> set auth" "CHR '']'' \<notin> set auth"
      by (auto simp: list_all_iff)
    from netloc_cases(2) [OF assms(1,2,3) a assms(6) this, of rt]
    show ?thesis by (simp only: g f)
  qed
  have C: "\<forall>ep'. url ep' = url ep \<longrightarrow> get_domain rt ep' = get_domain rt ep"
    by (simp add: get_domain_def)
  from A B C show ?thesis unfolding U_def N_def by blast
qed

theorem get_domain_is_netloc_witness:
  "get_domain sample_runtime
     (sample_endpoint\<lparr>url := url_of_parts ''https'' [] ''example.com'' ''443'' ''/health''\<rparr>)
     = Inr ''example.com:443''
   \<and> ''https'' \<noteq> [] \<and> hd ''https'' \<in> set ascii_letters
   \<and> is_netloc_delim (hd ''/health'')"
proof -
  have 1: "''https'' \<noteq> []" by simp
  have 2: "hd ''https'' \<in> set ascii_letters" by (simp add: ascii_letters_def)
  have 3: "\<forall>c\<in>set ''https''. c \<in> set scheme_chars"
    by (simp add: scheme_chars_def ascii_letters_def)
  have 4: "\<forall>c\<in>set ''example.com''. \<not> is_netloc_delim c \<and> c \<noteq> CHR ''@''"
    by (simp add: is_netloc_delim_def)
  have 5: "\<forall>c\<in>set ''443''. c \<in> set ''0123456789''" by simp
  have 6: "''/health'' = [] \<or> is_netloc_delim (hd ''/health'')"
    by (simp add: is_netloc_delim_def)
  have 7: "\<forall>c\<in>set ''example.com''. isascii c \<and> c \<noteq> CHR ''['' \<and> c \<noteq> CHR '']''"
    by (simp add: isascii_def)
  have f: "filter (\<lambda>c. \<not> is_unsafe_byte c) ''example.com'' = ''example.com''"
    by (simp add: is_unsafe_byte_def)
  from get_domain_is_netloc [OF 1 2 3 4 5 6, of sample_runtime sample_endpoint] 7
  have "get_domain sample_runtime
          (sample_endpoint\<lparr>url := url_of_parts ''https'' [] ''example.com'' ''443'' ''/health''\<rparr>)
        = Inr (filter (\<lambda>c. \<not> is_unsafe_byte c) ''example.com''
                 @ (if ''443'' = [] then [] else '':'' @ ''443''))"
    by blast
  then have "get_domain sample_runtime
          (sample_endpoint\<lparr>url := url_of_parts ''https'' [] ''example.com'' ''443'' ''/health''\<rparr>)
        = Inr ''example.com:443''"
    by (simp only: f) simp
  with 2 6 show ?thesis by simp
qed

text \<open>
  C7 as stated fails: for \<^verbatim>\<open>https://example.com:443/health\<close> the domain is
  \<^verbatim>\<open>example.com:443\<close>, though 443 is the default port of https and the specification's domain
  is \<^verbatim>\<open>example.com\<close>.
\<close>

theorem domain_keeps_default_port_counterexample:
  "get_domain sample_runtime
     (sample_endpoint\<lparr>url := url_of_parts ''https'' [] ''example.com'' ''443'' ''/health''\<rparr>)
     = Inr ''example.com:443''
   \<and> spec_domain ''https'' ''example.com'' ''443'' = ''example.com''"
  by (simp add: netloc_eval url_of_parts_def spec_domain_def spec_default_port_def)

section \<open>The request of a probe\<close>

lemma json_dumps_length: "length s + 2 \<le> length (json_dumps s)"
proof -
  have "length s \<le> length (concat (map json_escape_char s))"
  proof (induction s)
    case Nil
    show ?case by simp
  next
    case (Cons c s)
    have "1 \<le> length (json_escape_char c)" by (simp add: json_escape_char_def)
    with Cons show ?case by simp
  qed
  then show ?thesis by (simp add: json_dumps_def)
qed

lemma json_dumps_changes: "json_dumps s \<noteq> s"
proof
  assume "json_dumps s = s"
  then have "length (json_dumps s) = length s" by simp
  with json_dumps_length [of s] show False by simp
qed

text \<open>
  C8 as stated fails: the body \<^verbatim>\<open>{}\<close> is sent as the four characters \<^verbatim>\<open>"{}"\<close>, and the empty
  body, though present, is not sent at all.
\<close>

theorem body_is_json_encoded_counterexample:
  "fst (check_endpoint sample_runtime (HealthChecker_init [sample_post]) sample_post
          \<lparr>t_start = 0, t_end = 1, outcome = Response 201\<rparr>)
     = [\<lparr>req_method = ''POST'', req_url = ''https://example.com/items'',
          req_headers = Some [(''content-type'', ''application/json'')],
          req_json = Some ''{}'', req_timeout = 5\<rparr>]
   \<and> request_body \<lparr>req_method = ''POST'', req_url = ''https://example.com/items'',
          req_headers = Some [(''content-type'', ''application/json'')],
          req_json = Some ''{}'', req_timeout = 5\<rparr>
     = Some [CHR 0x22, CHR ''{'', CHR ''}'', CHR 0x22]
   \<and> body sample_post = Some [CHR ''{'', CHR ''}'']
   \<and> fst (check_endpoint sample_runtime (HealthChecker_init [sample_post])
          (sample_post\<lparr>body := Some []\<rparr>)
          \<lparr>t_start = 0, t_end = 1, outcome = Response 201\<rparr>)
     = [\<lparr>req_method = ''POST'', req_url = ''https://example.com/items'',
          req_headers = Some [(''content-type'', ''application/json'')],
          req_json = None, req_timeout = 5\<rparr>]"
  by (simp add: check_endpoint_def request_args_def HealthChecker_init_def sample_post_def
        request_body_def json_dumps_def json_escape_char_def)


lemma check_all_endpoints_frame:
  assumes "check_all_endpoints rt hc net = Inr hc'"
  shows "endpoints hc' = endpoints hc \<and> timeout hc' = timeout hc"
  using assms by (auto simp: check_all_endpoints_def split: sum.splits)

lemma run_cycles_frame:
  assumes "run_cycles rt hc nets = Inr hc'"
  shows "endpoints hc' = endpoints hc \<and> timeout hc' = timeout hc"
  using assms
proof (induction nets arbitrary: hc)
  case Nil
  then show ?case by simp
next
  case (Cons net nets)
  then obtain hc1 where 1: "check_all_endpoints rt hc net = Inr hc1"
    and 2: "run_cycles rt hc1 nets = Inr hc'"
    by (auto split: sum.splits)
  from Cons.IH [OF 2] check_all_endpoints_frame [OF 1] show ?case by simp
qed

lemma sample_post_domain: "get_domain sample_runtime sample_post = Inr ''example.com''"
  by (simp add: netloc_eval sample_post_def)

lemma sample_post_cycle:
  "check_all_endpoints sample_runtime (HealthChecker_init [sample_post])
     (\<lambda>i. \<lparr>t_start = 0, t_end = 0.1, outcome = Response 201\<rparr>)
   = Inr \<lparr>endpoints = [sample_post],
          results = [''example.com'' \<mapsto>
            [\<lparr>endpoint_name = ''create'', domain = ''example.com'',
              response_time_ms = Finite 100, status_code = 201, timestamp = 1700000000\<rparr>]],
          timeout = 5\<rparr>"
proof -
  have "name sample_post = ''create''" "class_def_now sample_runtime = 1700000000"
    by (simp_all add: sample_post_def sample_runtime_def)
  then show ?thesis
    by (simp add: check_all_endpoints_def cycle_results_def HealthChecker_init_def probe_eval
        sample_post_domain record_result_def bucket_def)
qed

text \<open>
  C8, as amended. One probe makes one call of \<^verbatim>\<open>session.request\<close>, with the method, the URL
  and the headers of the endpoint and, in every cycle, the one timeout of 5 seconds set when
  the checker was created. The body goes into the \<^verbatim>\<open>json=\<close> argument when it is a non-empty
  string (nothing is sent for \<^verbatim>\<open>None\<close> and for the empty string), so what is sent is its
  JSON encoding, which never equals the body itself.
\<close>

theorem check_endpoint_request:
  assumes "run_cycles rt (HealthChecker_init eps) nets = Inr hc"
  shows "fst (check_endpoint rt hc ep p)
           = [\<lparr>req_method = http_method ep, req_url = url ep, req_headers = headers ep,
               req_json = (case body ep of None \<Rightarrow> None
                           | Some b \<Rightarrow> if b = [] then None else Some b),
               req_timeout = 5\<rparr>]
       \<and> map request_body (fst (check_endpoint rt hc ep p))
           = [case body ep of None \<Rightarrow> None
              | Some b \<Rightarrow> if b = [] then None else Some (json_dumps b)]
       \<and> (\<forall>b. json_dumps b \<noteq> b)"
proof -
  from run_cycles_frame [OF assms] have "timeout hc = 5"
    by (simp add: HealthChecker_init_def)
  then show ?thesis
    by (simp add: check_endpoint_def request_args_def request_body_def json_dumps_changes
        split: option.splits)
qed

theorem check_endpoint_request_witness:
  "run_cycles sample_runtime (HealthChecker_init [sample_post])
     [\<lambda>i. \<lparr>t_start = 0, t_end = 0.1, outcome = Response 201\<rparr>]
   = Inr \<lparr>endpoints = [sample_post],
          results = [''example.com'' \<mapsto>
            [\<lparr>endpoint_name = ''create'', domain = ''example.com'',
              response_time_ms = Finite 100, status_code = 201, timestamp = 1700000000\<rparr>]],
          timeout = 5\<rparr>
   \<and> fst (check_endpoint sample_runtime
        \<lparr>endpoints = [sample_post],
          results = [''example.com'' \<mapsto>
            [\<lparr>endpoint_name = ''create'', domain = ''example.com'',
              response_time_ms = Finite 100, status_code = 201, timestamp = 1700000000\<rparr>]],
          timeout = 5\<rparr> sample_post \<lparr>t_start = 15, t_end = 15.1, outcome = Response 201\<rparr>)
     = [\<lparr>req_method = ''POST'', req_url = ''https://example.com/items'',
          req_headers = Some [(''content-type'', ''application/json'')],
          req_json = Some ''{}'', req_timeout = 5\<rparr>]"
  using check_endpoint_request [of sample_runtime "[sample_post]"
      "[\<lambda>i. \<lparr>t_start = 0, t_end = 0.1, outcome = Response 201\<rparr>]"
      "\<lparr>endpoints = [sample_post],
          results = [''example.com'' \<mapsto>
            [\<lparr>endpoint_name = ''create'', domain = ''example.com'',
              response_time_ms = Finite 100, status_code = 201, timestamp = 1700000000\<rparr>]],
          timeout = 5\<rparr>" sample_post
      "\<lparr>t_start = 15, t_end = 15.1, outcome = Response 201\<rparr>"]
  by (simp add: sample_post_cycle) (simp add: sample_post_def)

section \<open>One cycle\<close>

lemma gather_map_Inr: "gather (map Inr ys) = Inr ys"
  by (induction ys) simp_all

lemma gather_InrD: "gather xs = Inr ys \<Longrightarrow> xs = map Inr ys"
  by (induction xs arbitrary: ys rule: gather.induct) (auto split: sum.splits)

lemma gather_Inr_iff: "gather xs = Inr ys \<longleftrightarrow> xs = map Inr ys"
  using gather_InrD gather_map_Inr by auto

lemma foldl_record_result:
  "foldl record_result m rs d =
     (if filter (\<lambda>r. domain r = d) rs = [] then m d
      else Some (bucket m d @ filter (\<lambda>r. domain r = d) rs))"
proof (induction rs arbitrary: m)
  case Nil
  show ?case by simp
next
  case (Cons r rs)
  show ?case
    by (simp add: Cons.IH) (simp add: record_result_def bucket_def)
qed

lemma check_endpoint_Inr_domain:
  assumes "snd (check_endpoint rt hc ep p) = Inr r"
  shows "get_domain rt ep = Inr (domain r) \<and> endpoint_name r = name ep"
  using assms
  by (auto simp: probe_eval split: request_outcome.splits sum.splits if_splits)

lemma check_endpoint_returns:
  assumes "get_domain rt ep = Inr d" and "\<forall>e. outcome p = Raised e \<longrightarrow> is_Exception e"
  shows "\<exists>r. snd (check_endpoint rt hc ep p) = Inr r"
  using assms
  by (auto simp: probe_eval split: request_outcome.splits sum.splits if_splits)

lemma gather_map_returns:
  assumes "\<forall>i<n. \<exists>r. f i = Inr r"
  shows "\<exists>rs. gather (map f [0..<n]) = Inr rs"
proof -
  from assms have "\<forall>i<n. f i = Inr (projr (f i))" by auto
  then have "map f [0..<n] = map Inr (map (\<lambda>i. projr (f i)) [0..<n])"
    by (simp add: comp_def)
  then show ?thesis by (metis gather_Inr_iff)
qed

lemma gather_map_nth:
  assumes "gather (map f [0..<n]) = Inr rs"
  shows "length rs = n \<and> (\<forall>i<n. f i = Inr (rs ! i))"
proof -
  from assms have eq: "map f [0..<n] = map Inr rs" by (simp add: gather_Inr_iff)
  then have len: "length rs = n" by (metis length_map length_upt diff_zero)
  have "f i = Inr (rs ! i)" if "i < n" for i
  proof -
    have "map f [0..<n] ! i = map Inr rs ! i" using eq by simp
    with that len show ?thesis by simp
  qed
  with len show ?thesis by simp
qed

lemma filter_domain_count:
  assumes "length rs = length eps"
    and "\<forall>i<length eps. get_domain rt (eps ! i) = Inr (domain (rs ! i))"
  shows "length (filter (\<lambda>r. domain r = d) rs)
           = length (filter (\<lambda>ep. get_domain rt ep = Inr d) eps)"
  using assms
proof (induction rs eps rule: list_induct2)
  case Nil
  show ?case by simp
next
  case (Cons r rs ep eps)
  from Cons.prems have h: "get_domain rt ep = Inr (domain r)" by auto
  from Cons.prems have "\<forall>i<length eps. get_domain rt (eps ! i) = Inr (domain (rs ! i))"
    by auto
  with Cons.IH h show ?case by auto
qed


lemma cycle_results_returns:
  assumes "\<forall>i<length (endpoints hc).
             (\<exists>d. get_domain rt (endpoints hc ! i) = Inr d)
             \<and> (\<forall>e. outcome (net i) = Raised e \<longrightarrow> is_Exception e)"
  shows "\<exists>rs. cycle_results rt hc net = Inr rs"
  unfolding cycle_results_def
proof (rule gather_map_returns, intro allI impI)
  fix i
  assume "i < length (endpoints hc)"
  with assms obtain d where "get_domain rt (endpoints hc ! i) = Inr d"
    and "\<forall>e. outcome (net i) = Raised e \<longrightarrow> is_Exception e"
    by blast
  then show "\<exists>r. snd (check_endpoint rt hc (endpoints hc ! i) (net i)) = Inr r"
    by (rule check_endpoint_returns)
qed

lemma cycle_results_nth:
  assumes "cycle_results rt hc net = Inr rs"
  shows "length rs = length (endpoints hc)
       \<and> (\<forall>i<length (endpoints hc).
             snd (check_endpoint rt hc (endpoints hc ! i) (net i)) = Inr (rs ! i)
             \<and> get_domain rt (endpoints hc ! i) = Inr (domain (rs ! i)))"
proof -
  from assms gather_map_nth
  have 1: "length rs = length (endpoints hc)"
    and 2: "\<forall>i<length (endpoints hc).
              snd (check_endpoint rt hc (endpoints hc ! i) (net i)) = Inr (rs ! i)"
    unfolding cycle_results_def by blast+
  from 2 check_endpoint_Inr_domain
  have "\<forall>i<length (endpoints hc). get_domain rt (endpoints hc ! i) = Inr (domain (rs ! i))"
    by blast
  with 1 2 show ?thesis by simp
qed

lemma check_all_endpoints_results:
  assumes "cycle_results rt hc net = Inr rs"
  shows "check_all_endpoints rt hc net
           = Inr (hc\<lparr>results := foldl record_result (results hc) rs\<rparr>)"
  using assms by (simp add: check_all_endpoints_def)

lemma bucket_foldl_record_result:
  "bucket (foldl record_result m rs) d = bucket m d @ filter (\<lambda>r. domain r = d) rs"
  by (simp add: bucket_def foldl_record_result)

text \<open>
  C5, as amended. A cycle over \<open>N\<close> endpoints whose URLs \<^verbatim>\<open>urlparse\<close> accepts, none of whose
  probes is cancelled, returns: it produces exactly \<open>N\<close> results, the \<open>i\<close>-th for the
  \<open>i\<close>-th endpoint and under the domain that \<^verbatim>\<open>get_domain\<close> derives for that endpoint, and
  appends each to the bucket of its domain, buckets of other domains staying as they are.
  Endpoints with the same derived domain share one bucket, and the length of a bucket grows
  by the number of endpoints of its domain. The appends come before the aggregation: the
  statistics that \<^verbatim>\<open>run_check_cycle\<close> reports for the cycle are computed from the buckets
  with this cycle's results in them.
\<close>

theorem cycle_records_every_result:
  assumes "\<forall>i<length (endpoints hc).
             (\<exists>d. get_domain rt (endpoints hc ! i) = Inr d)
             \<and> (\<forall>e. outcome (net i) = Raised e \<longrightarrow> is_Exception e)"
  shows "\<exists>rs hc'.
           cycle_results rt hc net = Inr rs \<and> check_all_endpoints rt hc net = Inr hc'
         \<and> length rs = length (endpoints hc)
         \<and> (\<forall>i<length rs.
               snd (check_endpoint rt hc (endpoints hc ! i) (net i)) = Inr (rs ! i)
               \<and> get_domain rt (endpoints hc ! i) = Inr (domain (rs ! i))
               \<and> rs ! i \<in> set (bucket (results hc') (domain (rs ! i))))
         \<and> (\<forall>d. results hc' d =
                 (if filter (\<lambda>r. domain r = d) rs = [] then results hc d
                  else Some (bucket (results hc) d @ filter (\<lambda>r. domain r = d) rs)))
         \<and> (\<forall>d. length (bucket (results hc') d)
                 = length (bucket (results hc) d)
                   + length (filter (\<lambda>ep. get_domain rt ep = Inr d) (endpoints hc)))
         \<and> endpoints hc' = endpoints hc \<and> timeout hc' = timeout hc
         \<and> (\<forall>svc. health_checker svc = hc \<longrightarrow>
               run_check_cycle rt svc net
                 = Inr (svc\<lparr>health_checker := hc',
                           reported := reported svc @
                             [\<lambda>d. if filter (\<lambda>r. domain r = d) rs = []
                                   then map_option availability (results hc d)
                                   else Some (availability
                                     (bucket (results hc) d
                                        @ filter (\<lambda>r. domain r = d) rs))]\<rparr>))"
proof -
  from cycle_results_returns [OF assms]
  obtain rs where rs: "cycle_results rt hc net = Inr rs" by blast
  define hc' where "hc' = hc\<lparr>results := foldl record_result (results hc) rs\<rparr>"
  have c: "check_all_endpoints rt hc net = Inr hc'"
    using check_all_endpoints_results [OF rs] by (simp add: hc'_def)
  from cycle_results_nth [OF rs]
  have len: "length rs = length (endpoints hc)"
    and nth: "\<forall>i<length (endpoints hc).
               snd (check_endpoint rt hc (endpoints hc ! i) (net i)) = Inr (rs ! i)
               \<and> get_domain rt (endpoints hc ! i) = Inr (domain (rs ! i))"
    by simp_all
  have res: "results hc' = foldl record_result (results hc) rs"
    by (simp add: hc'_def)
  have mem: "rs ! i \<in> set (bucket (results hc') (domain (rs ! i)))" if "i < length rs" for i
    using that by (simp add: res bucket_foldl_record_result)
  have upd: "results hc' d =
              (if filter (\<lambda>r. domain r = d) rs = [] then results hc d
               else Some (bucket (results hc) d @ filter (\<lambda>r. domain r = d) rs))" for d
    by (simp only: res foldl_record_result)
  have cnt: "length (bucket (results hc') d)
               = length (bucket (results hc) d)
                 + length (filter (\<lambda>ep. get_domain rt ep = Inr d) (endpoints hc))" for d
    using filter_domain_count [OF len, of rt d] nth
    by (simp add: res bucket_foldl_record_result)
  have fr: "endpoints hc' = endpoints hc" "timeout hc' = timeout hc"
    by (simp_all add: hc'_def)
  have stats: "(\<lambda>d. map_option availability (results hc' d))
                 = (\<lambda>d. if filter (\<lambda>r. domain r = d) rs = []
                         then map_option availability (results hc d)
                         else Some (availability
                           (bucket (results hc) d @ filter (\<lambda>r. domain r = d) rs)))"
    by (rule ext) (simp add: upd)
  have agg: "run_check_cycle rt svc net
               = Inr (svc\<lparr>health_checker := hc',
                         reported := reported svc @
                           [\<lambda>d. if filter (\<lambda>r. domain r = d) rs = []
                                 then map_option availability (results hc d)
                                 else Some (availability
                                   (bucket (results hc) d
                                      @ filter (\<lambda>r. domain r = d) rs))]\<rparr>)"
    if "health_checker svc = hc" for svc
    using that c by (simp add: run_check_cycle_def get_availability_stats_def stats)
  show ?thesis
    using rs c len nth mem upd cnt fr agg
    by (intro exI [of _ rs] exI [of _ hc']) simp
qed


lemma sample_port_domains:
  "get_domain sample_runtime sample_web = Inr ''example.com''"
  "get_domain sample_runtime sample_plain = Inr ''example.com''"
  "get_domain sample_runtime sample_port80 = Inr ''example.com:80''"
  by (simp_all add: netloc_eval sample_web_def sample_plain_def sample_port80_def)

lemma sample_port_names:
  "name sample_web = ''web''" "name sample_plain = ''plain''" "name sample_port80 = ''port80''"
  by (simp_all add: sample_web_def sample_plain_def sample_port80_def)

lemma percent_2_of_2: "py_round (float_mul_int (int_truediv 2 2) 100) = 100"
  by (simp add: float_eval)

lemma sample_two_cycle:
  "check_all_endpoints sample_runtime (HealthChecker_init [sample_endpoint, sample_web])
     (sample_world n)
   = Inr \<lparr>endpoints = [sample_endpoint, sample_web],
          results = [''example.com'' \<mapsto>
            [\<lparr>endpoint_name = ''api'', domain = ''example.com'',
              response_time_ms = Finite 100, status_code = 200, timestamp = 1700000000\<rparr>,
             \<lparr>endpoint_name = ''web'', domain = ''example.com'',
              response_time_ms = Finite 100, status_code = 200, timestamp = 1700000000\<rparr>]],
          timeout = 5\<rparr>"
  by (simp add: check_all_endpoints_def cycle_results_def HealthChecker_init_def probe_eval
      sample_domain sample_port_domains sample_fields sample_port_names record_result_def
      bucket_def sample_world_def)

lemma sample_two_availability:
  "availability
     [\<lparr>endpoint_name = ''api'', domain = ''example.com'',
       response_time_ms = Finite 100, status_code = 200, timestamp = 1700000000\<rparr>,
      \<lparr>endpoint_name = ''web'', domain = ''example.com'',
       response_time_ms = Finite 100, status_code = 200, timestamp = 1700000000\<rparr>] = 100"
  by (simp add: availability_def is_up_def percent_2_of_2)

theorem cycle_records_every_result_witness:
  "check_all_endpoints sample_runtime (HealthChecker_init [sample_endpoint, sample_web])
     (sample_world 1)
   = Inr \<lparr>endpoints = [sample_endpoint, sample_web],
          results = [''example.com'' \<mapsto>
            [\<lparr>endpoint_name = ''api'', domain = ''example.com'',
              response_time_ms = Finite 100, status_code = 200, timestamp = 1700000000\<rparr>,
             \<lparr>endpoint_name = ''web'', domain = ''example.com'',
              response_time_ms = Finite 100, status_code = 200, timestamp = 1700000000\<rparr>]],
          timeout = 5\<rparr>
   \<and> map_sum id length
         (cycle_results sample_runtime (HealthChecker_init [sample_endpoint, sample_web])
            (sample_world 1)) = Inr 2
   \<and> length (filter (\<lambda>ep. get_domain sample_runtime ep = Inr ''example.com'')
         [sample_endpoint, sample_web]) = 2
   \<and> map_sum id (\<lambda>svc. map (\<lambda>stats. (stats ''example.com'', stats ''other.org''))
                         (reported svc))
         (run_check_cycle sample_runtime (MonitoringService_init [sample_endpoint, sample_web])
            (sample_world 1))
       = Inr [(Some 100, None)]"
proof -
  have h: "\<forall>i<length (endpoints (HealthChecker_init [sample_endpoint, sample_web])).
             (\<exists>d. get_domain sample_runtime
                     (endpoints (HealthChecker_init [sample_endpoint, sample_web]) ! i) = Inr d)
             \<and> (\<forall>e. outcome (sample_world 1 i) = Raised e \<longrightarrow> is_Exception e)"
    by (simp add: HealthChecker_init_def All_less_Suc sample_domain sample_port_domains
        sample_world_def)
  from cycle_records_every_result [OF h]
  obtain rs where 1: "cycle_results sample_runtime
                        (HealthChecker_init [sample_endpoint, sample_web]) (sample_world 1)
                      = Inr rs"
    and 2: "length rs = length (endpoints (HealthChecker_init [sample_endpoint, sample_web]))"
    by blast
  have A: "map_sum id length
             (cycle_results sample_runtime (HealthChecker_init [sample_endpoint, sample_web])
                (sample_world 1)) = Inr 2"
  proof -
    have "length rs = 2" using 2 by (simp add: HealthChecker_init_def)
    then show ?thesis by (simp only: 1 map_sum.simps)
  qed
  have C: "length (filter (\<lambda>ep. get_domain sample_runtime ep = Inr ''example.com'')
             [sample_endpoint, sample_web]) = 2"
    by (simp add: sample_domain sample_port_domains)
  have D: "map_sum id (\<lambda>svc. map (\<lambda>stats. (stats ''example.com'', stats ''other.org''))
                              (reported svc))
             (run_check_cycle sample_runtime
                (MonitoringService_init [sample_endpoint, sample_web]) (sample_world 1))
           = Inr [(Some 100, None)]"
    by (simp add: run_check_cycle_def MonitoringService_init_def sample_two_cycle
        get_availability_stats_def sample_two_availability)
  from A C D sample_two_cycle [of 1] show ?thesis by (intro conjI)
qed

text \<open>
  C5 as stated fails for \<^verbatim>\<open>http://example.com/a\<close> and \<^verbatim>\<open>http://example.com:80/b\<close>: the same
  host and the same port (80 is the default of http, so the specification's domain is
  \<^verbatim>\<open>example.com\<close> for both), but after one cycle two buckets with one result each.
\<close>

theorem default_port_two_buckets_counterexample:
  "url sample_plain = url_of_parts ''http'' [] ''example.com'' [] ''/a''
   \<and> url sample_port80 = url_of_parts ''http'' [] ''example.com'' ''80'' ''/b''
   \<and> spec_domain ''http'' ''example.com'' [] = ''example.com''
   \<and> spec_domain ''http'' ''example.com'' ''80'' = ''example.com''
   \<and> check_all_endpoints sample_runtime (HealthChecker_init [sample_plain, sample_port80])
        (sample_world 1)
      = Inr \<lparr>endpoints = [sample_plain, sample_port80],
             results =
               [''example.com'' \<mapsto>
                  [\<lparr>endpoint_name = ''plain'', domain = ''example.com'',
                    response_time_ms = Finite 100, status_code = 200,
                    timestamp = 1700000000\<rparr>],
                ''example.com:80'' \<mapsto>
                  [\<lparr>endpoint_name = ''port80'', domain = ''example.com:80'',
                    response_time_ms = Finite 100, status_code = 200,
                    timestamp = 1700000000\<rparr>]],
             timeout = 5\<rparr>"
proof -
  have "url sample_plain = url_of_parts ''http'' [] ''example.com'' [] ''/a''"
    "url sample_port80 = url_of_parts ''http'' [] ''example.com'' ''80'' ''/b''"
    by (simp_all add: sample_plain_def sample_port80_def url_of_parts_def)
  moreover have "spec_domain ''http'' ''example.com'' [] = ''example.com''"
    "spec_domain ''http'' ''example.com'' ''80'' = ''example.com''"
    by (simp_all add: spec_domain_def spec_default_port_def)
  moreover have "check_all_endpoints sample_runtime
        (HealthChecker_init [sample_plain, sample_port80]) (sample_world 1)
      = Inr \<lparr>endpoints = [sample_plain, sample_port80],
             results =
               [''example.com'' \<mapsto>
                  [\<lparr>endpoint_name = ''plain'', domain = ''example.com'',
                    response_time_ms = Finite 100, status_code = 200,
                    timestamp = 1700000000\<rparr>],
                ''example.com:80'' \<mapsto>
                  [\<lparr>endpoint_name = ''port80'', domain = ''example.com:80'',
                    response_time_ms = Finite 100, status_code = 200,
                    timestamp = 1700000000\<rparr>]],
             timeout = 5\<rparr>"
    by (simp add: check_all_endpoints_def cycle_results_def HealthChecker_init_def probe_eval
        sample_port_domains sample_fields sample_port_names record_result_def
        bucket_def sample_world_def)
  ultimately show ?thesis by (intro conjI)
qed

section \<open>Availability\<close>

lemma round_half_even_bound: "\<bar>of_int (round_half_even x) - x\<bar> \<le> 1 / 2"
proof -
  have "of_int \<lfloor>x\<rfloor> \<le> x" "x < of_int \<lfloor>x\<rfloor> + 1" by linarith+
  then show ?thesis
    by (auto simp: round_half_even_def Let_def)
qed

lemma ilog2_bounds:
  assumes "0 < x"
  shows "2 powi (ilog2 x) \<le> x \<and> x < 2 powi (ilog2 x + 1)"
proof (cases "1 \<le> x")
  case True
  define n where "n = \<lfloor>x\<rfloor>"
  have n1: "1 \<le> n" using True by (simp add: n_def le_floor_iff)
  then have npos: "0 < n" by simp
  from bitlen_bounds [OF npos]
  have lo: "2 ^ nat (bitlen n - 1) \<le> n" and hi: "n < 2 ^ nat (bitlen n)" by simp_all
  have bl: "1 \<le> bitlen n" using npos by (simp add: bitlen_def floorlog_def)
  have e: "ilog2 x = bitlen n - 1" using True by (simp add: ilog2_def n_def)
  have "(2::real) powi (bitlen n - 1) = 2 ^ nat (bitlen n - 1)"
    using bl by (simp add: power_int_def)
  also have "\<dots> = of_int (2 ^ nat (bitlen n - 1))" by simp
  also have "\<dots> \<le> of_int n" using lo by (simp only: of_int_le_iff)
  also have "\<dots> \<le> x" by (simp add: n_def)
  finally have A: "2 powi (ilog2 x) \<le> x" by (simp add: e)
  have "n + 1 \<le> 2 ^ nat (bitlen n)" using hi by simp
  then have "of_int (n + 1) \<le> (of_int (2 ^ nat (bitlen n)) :: real)"
    by (simp only: of_int_le_iff)
  moreover have "x < of_int (n + 1)" by (simp add: n_def)
  moreover have "(2::real) powi (bitlen n - 1 + 1) = 2 ^ nat (bitlen n)"
    using bl by (simp add: power_int_def)
  ultimately have B: "x < 2 powi (ilog2 x + 1)" by (simp add: e)
  from A B show ?thesis ..
next
  case False
  then have x1: "x < 1" by simp
  define m where "m = \<lceil>1 / x\<rceil>"
  have y1: "1 < 1 / x" using assms x1 by simp
  have m2: "2 \<le> m" using y1 by (simp add: m_def le_ceiling_iff)
  then have mpos: "0 < m - 1" by simp
  define k where "k = bitlen (m - 1)"
  from bitlen_bounds [OF mpos]
  have lo: "2 ^ nat (k - 1) \<le> m - 1" and hi: "m - 1 < 2 ^ nat k" by (simp_all add: k_def)
  have k1: "1 \<le> k" using mpos by (simp add: k_def bitlen_def floorlog_def)
  have e: "ilog2 x = - k" using False by (simp add: ilog2_def m_def k_def)
  have "m \<le> 2 ^ nat k" using hi by simp
  then have "(of_int m :: real) \<le> 2 ^ nat k" by simp
  moreover have "1 / x \<le> of_int m" by (simp add: m_def)
  ultimately have "1 / x \<le> 2 ^ nat k" by linarith
  then have "1 \<le> x * 2 ^ nat k" using assms by (simp add: field_simps)
  then have "1 / 2 ^ nat k \<le> x" by (simp add: field_simps)
  moreover have "(2::real) powi (- k) = 1 / 2 ^ nat k"
    using k1 by (simp add: power_int_def field_simps)
  ultimately have A: "2 powi (ilog2 x) \<le> x" by (simp add: e)
  have "(2 ^ nat (k - 1) :: real) \<le> of_int (m - 1)"
    using lo by (simp only: numeral_power_le_of_int_cancel_iff)
  moreover have "of_int (m - 1) < 1 / x" using ceiling_correct [of "1 / x"] by (simp add: m_def)
  ultimately have "2 ^ nat (k - 1) < 1 / x" by linarith
  then have "x * 2 ^ nat (k - 1) < 1" using assms by (simp add: field_simps)
  then have "x < 1 / 2 ^ nat (k - 1)" by (simp add: field_simps)
  moreover have "(2::real) powi (- k + 1) = 1 / 2 ^ nat (k - 1)"
  proof -
    have "- k + 1 = - int (nat (k - 1))" using k1 by simp
    then show ?thesis by (simp only: power_int_minus power_int_of_nat) (simp add: field_simps)
  qed
  ultimately have B: "x < 2 powi (ilog2 x + 1)" by (simp add: e)
  from A B show ?thesis ..
qed


lemma fl64_error:
  assumes "0 < x"
  shows "\<bar>fl64 x - x\<bar> \<le> x / 2 ^ 53"
proof -
  define e where "e = ilog2 x"
  define s :: real where "s = 2 powi (52 - e)"
  define r where "r = round_half_even (x * s)"
  have spos: "0 < s" by (simp add: s_def)
  have inv: "(2::real) powi (e - 52) = 1 / s"
    by (simp add: s_def power_int_diff)
  have fl: "fl64 x = of_int r / s"
    using assms by (simp add: fl64_def Let_def e_def [symmetric] s_def [symmetric]
        r_def [symmetric] inv)
  have "\<bar>of_int r - x * s\<bar> \<le> 1 / 2"
    unfolding r_def by (rule round_half_even_bound)
  then have "\<bar>of_int r - x * s\<bar> / s \<le> (1 / 2) / s"
    using spos by (intro divide_right_mono) simp_all
  moreover have "\<bar>of_int r - x * s\<bar> / s = \<bar>of_int r / s - x\<bar>"
  proof -
    have "of_int r / s - x = (of_int r - x * s) / s" using spos by (simp add: field_simps)
    then show ?thesis using spos by (simp add: abs_divide)
  qed
  ultimately have 1: "\<bar>fl64 x - x\<bar> \<le> (1 / 2) / s" by (simp add: fl)
  have "(1 / 2) / s = 2 powi e / 2 ^ 53"
    by (simp add: s_def power_int_diff)
  moreover have "2 powi e \<le> x" using ilog2_bounds [OF assms] by (simp add: e_def)
  ultimately have "(1 / 2) / s \<le> x / 2 ^ 53" by (simp add: divide_right_mono)
  with 1 show ?thesis by linarith
qed

lemma percent_error:
  assumes u: "0 < u" and ut: "u \<le> t"
  shows "\<bar>float_mul_int (int_truediv u t) 100 - 100 * of_int u / of_int t\<bar> \<le> 201 / 2 ^ 53"
proof -
  define x :: real where "x = of_int u / of_int t"
  define q where "q = fl64 x"
  define p where "p = fl64 (q * 100)"
  have tpos: "0 < t" using u ut by simp
  have x0: "0 < x" using u tpos by (simp add: x_def)
  have x1: "x \<le> 1" using ut tpos by (simp add: x_def)
  have eq: "\<bar>q - x\<bar> \<le> x / 2 ^ 53" unfolding q_def by (rule fl64_error [OF x0])
  have q0: "0 < q"
  proof -
    have "x - x / 2 ^ 53 \<le> q" using eq by linarith
    moreover have "0 < x - x / 2 ^ 53" using x0 by (simp add: field_simps)
    ultimately show ?thesis by linarith
  qed
  have qle: "q \<le> x + x / 2 ^ 53" using eq by linarith
  have "\<bar>p - q * 100\<bar> \<le> (q * 100) / 2 ^ 53"
    unfolding p_def by (rule fl64_error) (use q0 in simp)
  moreover have "\<bar>q * 100 - 100 * x\<bar> \<le> 100 * (x / 2 ^ 53)" using eq by linarith
  ultimately have "\<bar>p - 100 * x\<bar> \<le> (q * 100) / 2 ^ 53 + 100 * (x / 2 ^ 53)"
    by linarith
  moreover have "(q * 100) / 2 ^ 53 \<le> ((x + x / 2 ^ 53) * 100) / 2 ^ 53"
    using qle by (simp add: divide_right_mono)
  moreover have "((x + x / 2 ^ 53) * 100) / 2 ^ 53 + 100 * (x / 2 ^ 53) \<le> 201 / 2 ^ 53"
    using x0 x1 by (simp add: field_simps)
  ultimately have "\<bar>p - 100 * x\<bar> \<le> 201 / 2 ^ 53" by linarith
  then show ?thesis
    by (simp add: p_def q_def x_def float_mul_int_def int_truediv_def)
qed


lemma fl64_zero: "fl64 0 = 0"
  by (simp add: fl64_def)

lemma round_half_even_zero: "round_half_even 0 = 0"
  by (simp add: round_half_even_def)

lemma percent_nearest:
  assumes t0: "0 < t" and u0: "0 \<le> u" and ut: "u \<le> t" and tb: "t < 2 ^ 44"
  shows "\<bar>of_int (py_round (float_mul_int (int_truediv u t) 100))
            - 100 * of_int u / of_int t\<bar> \<le> (1 / 2 :: real)"
proof (cases "u = 0")
  case True
  then show ?thesis
    by (simp add: int_truediv_def float_mul_int_def py_round_def fl64_zero round_half_even_zero)
next
  case False
  with u0 have upos: "0 < u" by simp
  define p where "p = float_mul_int (int_truediv u t) 100"
  define r where "r = py_round p"
  define X :: real where "X = 100 * of_int u / of_int t"
  define D where "D = 2 * t * r - 200 * u"
  have rp: "\<bar>of_int r - p\<bar> \<le> 1 / 2"
    unfolding r_def py_round_def by (rule round_half_even_bound)
  have pX: "\<bar>p - X\<bar> \<le> 201 / 2 ^ 53"
    unfolding p_def X_def by (rule percent_error [OF upos ut])
  have a: "\<bar>of_int r - X\<bar> \<le> 1 / 2 + 201 / 2 ^ 53" using rp pX by linarith
  have treal: "0 < (of_int t :: real)" using t0 by simp
  have b: "of_int r - X = of_int D / (2 * of_int t)"
    using treal by (simp add: X_def D_def field_simps)
  have "\<bar>D\<bar> \<le> t"
  proof (rule ccontr)
    assume "\<not> \<bar>D\<bar> \<le> t"
    then have "t + 1 \<le> \<bar>D\<bar>" by simp
    then have "(of_int (t + 1) :: real) \<le> of_int \<bar>D\<bar>" by (simp only: of_int_le_iff)
    then have "(of_int t + 1) / (2 * of_int t) \<le> \<bar>of_int D :: real\<bar> / (2 * of_int t)"
      using treal by (intro divide_right_mono) simp_all
    also have "\<dots> = \<bar>of_int r - X\<bar>" using treal by (simp add: b abs_divide)
    finally have "(of_int t + 1) / (2 * of_int t) \<le> (1 / 2 + 201 / 2 ^ 53 :: real)"
      using a by linarith
    then have "(of_int t + 1) * 2 ^ 53 \<le> (of_int t :: real) * 2 ^ 53 + 402 * of_int t"
      using treal by (simp add: field_simps)
    then have "(2 ^ 53 :: real) \<le> 402 * of_int t" by (simp add: algebra_simps)
    then have "(2 ^ 53 :: int) \<le> 402 * t" by (simp flip: of_int_le_iff)
    with tb show False by simp
  qed
  then have "(of_int \<bar>D\<bar> :: real) \<le> of_int t" by (simp only: of_int_le_iff)
  then have "\<bar>of_int D :: real\<bar> / (2 * of_int t) \<le> (of_int t :: real) / (2 * of_int t)"
    using treal by (intro divide_right_mono) simp_all
  then have "\<bar>of_int r - X\<bar> \<le> 1 / 2" using treal by (simp add: b abs_divide)
  then show ?thesis by (simp add: r_def p_def X_def)
qed



lemma up_count: "sum_list (map (\<lambda>check. 1) xs) = int (length xs)"
  by (induction xs) simp_all

lemma availability_counts:
  assumes "checks \<noteq> []"
  shows "availability checks
           = py_round (float_mul_int
               (int_truediv (int (length (filter is_up checks))) (int (length checks))) 100)"
  using assms by (simp add: availability_def up_count)

lemma availability_nearest:
  assumes "checks \<noteq> []" and "length checks < 2 ^ 44"
  shows "\<bar>real_of_int (availability checks)
            - 100 * real (length (filter is_up checks)) / real (length checks)\<bar> \<le> 1 / 2"
proof -
  have 1: "0 < int (length checks)" using assms(1) by simp
  have 2: "0 \<le> int (length (filter is_up checks))" by simp
  have 3: "int (length (filter is_up checks)) \<le> int (length checks)" by simp
  have 4: "int (length checks) < 2 ^ 44" using assms(2) by (simp flip: of_nat_less_iff)
  from percent_nearest [OF 1 2 3 4] show ?thesis
    by (simp add: availability_counts [OF assms(1)])
qed

lemma snd_check_endpoint_indep:
  "snd (check_endpoint rt hc ep p) = snd (check_endpoint rt hc' ep p)"
  by (simp add: check_endpoint_def)

lemma cycle_results_cong:
  assumes "endpoints hc' = endpoints hc"
  shows "cycle_results rt hc' net = cycle_results rt hc net"
  using assms snd_check_endpoint_indep [of rt hc' _ _ hc]
  by (simp add: cycle_results_def)

lemma recorded_cong:
  assumes "endpoints hc' = endpoints hc"
  shows "recorded rt hc' nets = recorded rt hc nets"
  by (induction nets) (simp_all add: cycle_results_cong [OF assms] split: sum.splits)

lemma run_cycles_results:
  assumes "run_cycles rt hc nets = Inr hc'"
  shows "results hc' = foldl record_result (results hc) (recorded rt hc nets)"
  using assms
proof (induction nets arbitrary: hc)
  case Nil
  then show ?case by simp
next
  case (Cons net nets)
  then obtain hc1 where 1: "check_all_endpoints rt hc net = Inr hc1"
    and 2: "run_cycles rt hc1 nets = Inr hc'"
    by (auto split: sum.splits)
  from 1 obtain rs where rs: "cycle_results rt hc net = Inr rs"
    and hc1: "hc1 = hc\<lparr>results := foldl record_result (results hc) rs\<rparr>"
    by (auto simp: check_all_endpoints_def split: sum.splits)
  have "endpoints hc1 = endpoints hc" by (simp add: hc1)
  then have "recorded rt hc1 nets = recorded rt hc nets" by (rule recorded_cong)
  with Cons.IH [OF 2] show ?case by (simp add: rs hc1)
qed

lemma recorded_no_endpoints:
  assumes "endpoints hc = []"
  shows "recorded rt hc nets = []"
  by (induction nets) (simp_all add: cycle_results_def assms)

text \<open>
  C1, as amended. After any number of cycles from a fresh checker, the keys of the mapping
  that \<^verbatim>\<open>get_availability_stats\<close> returns are exactly the domains with at least one recorded
  result (none for an empty endpoint list), and the value for such a domain is computed from
  all results recorded for it since the start: \<^verbatim>\<open>round(up_count / total_count * 100)\<close> in
  float arithmetic. With fewer than \<open>2^44\<close> results for the domain, that value is an integer
  within one half of \<open>100 * up_count / total_count\<close>: the nearest integer, and at an exact tie
  one of the two nearest.
\<close>

theorem availability_is_cumulative:
  assumes "run_cycles rt (HealthChecker_init eps) nets = Inr hc"
  shows "(\<forall>d. fst (get_availability_stats hc) d =
            (if filter (\<lambda>r. domain r = d) (recorded rt (HealthChecker_init eps) nets) = []
             then None
             else Some (availability
                    (filter (\<lambda>r. domain r = d) (recorded rt (HealthChecker_init eps) nets)))))
       \<and> (\<forall>checks. checks \<noteq> [] \<longrightarrow>
            availability checks
              = py_round (float_mul_int
                  (int_truediv (int (length (filter is_up checks))) (int (length checks))) 100)
            \<and> (length checks < 2 ^ 44 \<longrightarrow>
                 \<bar>real_of_int (availability checks)
                    - 100 * real (length (filter is_up checks)) / real (length checks)\<bar>
                 \<le> 1 / 2))
       \<and> (eps = [] \<longrightarrow> fst (get_availability_stats hc) = Map.empty)"
proof -
  have res: "results hc d =
               (if filter (\<lambda>r. domain r = d) (recorded rt (HealthChecker_init eps) nets) = []
                then None
                else Some (filter (\<lambda>r. domain r = d)
                             (recorded rt (HealthChecker_init eps) nets)))" for d
    using run_cycles_results [OF assms]
    by (simp add: foldl_record_result) (simp add: HealthChecker_init_def bucket_def)
  have A: "fst (get_availability_stats hc) d =
            (if filter (\<lambda>r. domain r = d) (recorded rt (HealthChecker_init eps) nets) = []
             then None
             else Some (availability
                    (filter (\<lambda>r. domain r = d) (recorded rt (HealthChecker_init eps) nets))))"
    for d
    by (simp add: get_availability_stats_def res)
  have C: "fst (get_availability_stats hc) = Map.empty" if "eps = []"
  proof -
    have "recorded rt (HealthChecker_init eps) nets = []"
      using that by (intro recorded_no_endpoints) (simp add: HealthChecker_init_def)
    with A show ?thesis by (intro ext) simp
  qed
  from A C availability_counts availability_nearest show ?thesis by blast
qed


lemma sample_up_down:
  "is_up sample_up" "\<not> is_up sample_down"
  "domain sample_up = ''example.com''" "domain sample_down = ''example.com''"
  by (simp_all add: is_up_def sample_up_def sample_down_def)

lemma sample_three_cycles:
  "run_cycles sample_runtime (HealthChecker_init [sample_endpoint])
     [sample_world 1, sample_timeout, sample_world 3]
   = Inr \<lparr>endpoints = [sample_endpoint],
          results = [''example.com'' \<mapsto> [sample_up, sample_down, sample_up]],
          timeout = 5\<rparr>"
  by (simp add: check_all_endpoints_def cycle_results_def HealthChecker_init_def probe_eval
      sample_domain sample_fields record_result_def bucket_def sample_world_def
      sample_timeout_def sample_up_def sample_down_def)

lemma availability_replicate:
  "availability (replicate a sample_up @ replicate b sample_down)
     = (if a + b = 0 then 0
        else py_round (float_mul_int (int_truediv (int a) (int (a + b))) 100))"
  by (simp add: availability_def up_count sample_up_down py_round_def round_half_even_zero
      sum_list_replicate)

lemma percent_2_of_3: "py_round (float_mul_int (int_truediv 2 3) 100) = 67"
  by (simp add: float_eval)

lemma percent_23_of_40: "py_round (float_mul_int (int_truediv 23 40) 100) = 57"
  by (simp add: float_eval)

lemma percent_109_of_200: "py_round (float_mul_int (int_truediv 109 200) 100) = 55"
  by (simp add: float_eval)

lemma sample_three_availability: "availability [sample_up, sample_down, sample_up] = 67"
  by (simp add: availability_def sample_up_down percent_2_of_3)

theorem availability_is_cumulative_witness:
  "run_cycles sample_runtime (HealthChecker_init [sample_endpoint])
     [sample_world 1, sample_timeout, sample_world 3]
   = Inr \<lparr>endpoints = [sample_endpoint],
          results = [''example.com'' \<mapsto> [sample_up, sample_down, sample_up]],
          timeout = 5\<rparr>
   \<and> fst (get_availability_stats
          \<lparr>endpoints = [sample_endpoint],
            results = [''example.com'' \<mapsto> [sample_up, sample_down, sample_up]],
            timeout = 5\<rparr>) ''example.com'' = Some 67
   \<and> fst (get_availability_stats
          \<lparr>endpoints = [sample_endpoint],
            results = [''example.com'' \<mapsto> [sample_up, sample_down, sample_up]],
            timeout = 5\<rparr>) ''other.org'' = None
   \<and> [sample_up, sample_down, sample_up] \<noteq> []
   \<and> length [sample_up, sample_down, sample_up] < 2 ^ 44"
proof -
  note inst = availability_is_cumulative [OF sample_three_cycles]
  have rec: "recorded sample_runtime (HealthChecker_init [sample_endpoint])
               [sample_world 1, sample_timeout, sample_world 3]
             = [sample_up, sample_down, sample_up]"
    by (simp add: cycle_results_def HealthChecker_init_def probe_eval
        sample_domain sample_fields sample_world_def sample_timeout_def sample_up_def
        sample_down_def)
  from inst have a: "fst (get_availability_stats
          \<lparr>endpoints = [sample_endpoint],
            results = [''example.com'' \<mapsto> [sample_up, sample_down, sample_up]],
            timeout = 5\<rparr>) ''example.com''
        = Some (availability [sample_up, sample_down, sample_up])"
    by (simp only: rec) (simp add: sample_up_down)
  from inst have b: "fst (get_availability_stats
          \<lparr>endpoints = [sample_endpoint],
            results = [''example.com'' \<mapsto> [sample_up, sample_down, sample_up]],
            timeout = 5\<rparr>) ''other.org'' = None"
    by (simp only: rec) (simp add: sample_up_down)
  from a b show ?thesis
    by (simp only: sample_three_cycles sample_three_availability) simp
qed

text \<open>
  C1 as stated fails at exact ties, where the float product is not the exact value. With 23
  results UP out of 40 the value is 57, while 57.5 rounds to 58 half up and half to even;
  with 109 UP out of 200 it is 55, while 54.5 rounds to 54 half down (and half to even).
\<close>

theorem availability_tie_counterexample:
  "fst (get_availability_stats
          \<lparr>endpoints = [sample_endpoint],
            results = [''example.com'' \<mapsto> replicate 23 sample_up @ replicate 17 sample_down],
            timeout = 5\<rparr>) ''example.com'' = Some 57
   \<and> round_half_even (100 * 23 / 40) = 58
   \<and> spec_round_half_up (100 * 23 / 40) = 58
   \<and> fst (get_availability_stats
          \<lparr>endpoints = [sample_endpoint],
            results = [''example.com'' \<mapsto> replicate 109 sample_up @ replicate 91 sample_down],
            timeout = 5\<rparr>) ''example.com'' = Some 55
   \<and> spec_round_half_down (100 * 109 / 200) = 54"
proof -
  have 1: "availability (replicate 23 sample_up @ replicate 17 sample_down) = 57"
    by (simp only: availability_replicate) (simp add: percent_23_of_40)
  have 2: "availability (replicate 109 sample_up @ replicate 91 sample_down) = 55"
    by (simp only: availability_replicate) (simp add: percent_109_of_200)
  have 3: "round_half_even (100 * 23 / 40) = 58" by (simp add: round_half_even_def)
  have 4: "spec_round_half_up (100 * 23 / 40) = 58" by (simp add: spec_round_half_up_def)
  have 5: "spec_round_half_down (100 * 109 / 200) = 54"
    by (simp add: spec_round_half_down_def)
  show ?thesis
    by (simp only: get_availability_stats_def fst_conv HealthChecker.simps map_upd_Some_unfold
        fun_upd_same option.map 1 2 3 4 5)
qed

text \<open>
  The availability of a domain is a percentage: an integer from 0 to 100 (for fewer than
  \<open>2^44\<close> results).
\<close>

theorem availability_in_range:
  assumes "length checks < 2 ^ 44"
  shows "0 \<le> availability checks \<and> availability checks \<le> 100"
proof (cases "checks = []")
  case True
  then show ?thesis
    by (simp add: availability_def py_round_def round_half_even_zero)
next
  case False
  define X :: real where
    "X = 100 * real (length (filter is_up checks)) / real (length checks)"
  have n: "0 < real (length checks)" using False by simp
  have "real (length (filter is_up checks)) \<le> real (length checks)" by simp
  then have hi: "X \<le> 100" using n by (simp add: X_def field_simps)
  have lo: "0 \<le> X" by (simp add: X_def)
  from availability_nearest [OF False assms]
  have "\<bar>real_of_int (availability checks) - X\<bar> \<le> 1 / 2" by (simp add: X_def)
  with lo hi have "- 1 < real_of_int (availability checks)"
    "real_of_int (availability checks) < 101" by linarith+
  then have "- 1 < availability checks" "availability checks < 101"
    by linarith+
  then show ?thesis by simp
qed

theorem availability_in_range_witness:
  "length [sample_up, sample_down, sample_up] < 2 ^ 44
   \<and> 0 \<le> availability [sample_up, sample_down, sample_up]
   \<and> availability [sample_up, sample_down, sample_up] \<le> 100"
  using availability_in_range [of "[sample_up, sample_down, sample_up]"]
  by simp

text \<open>
  C10. \<^verbatim>\<open>get_availability_stats\<close> leaves the checker as it was (its recorded history, its
  endpoint list and its timeout), so a second call right after the first returns the same
  mapping.
\<close>

theorem get_availability_stats_pure:
  "snd (get_availability_stats hc) = hc
   \<and> results (snd (get_availability_stats hc)) = results hc
   \<and> endpoints (snd (get_availability_stats hc)) = endpoints hc
   \<and> timeout (snd (get_availability_stats hc)) = timeout hc
   \<and> fst (get_availability_stats (snd (get_availability_stats hc)))
       = fst (get_availability_stats hc)"
  by (simp add: get_availability_stats_def)

section \<open>The monitoring loop\<close>

lemma run_check_cycle_running:
  assumes "run_check_cycle rt svc net = Inr svc'"
  shows "running svc' = running svc"
  using assms
  by (auto simp: run_check_cycle_def get_availability_stats_def split: sum.splits)

lemma run_check_cycle_stop:
  "run_check_cycle rt (stop svc) net = map_sum id stop (run_check_cycle rt svc net)"
  by (simp add: run_check_cycle_def stop_def get_availability_stats_def split: sum.splits)

lemma stop_commutes_in_cycle:
  assumes "loc s = InCycle"
  shows "run_step rt world (step rt world Stop s) = step rt world Stop (run_step rt world s)"
  using assms
  by (cases "run_check_cycle rt (service s) (world (cycle_no s))")
     (simp_all add: run_step_def run_check_cycle_stop)

lemma step_stopped:
  assumes "\<not> running (service s)" and "loc s \<noteq> NotStarted"
  shows "\<not> running (service (step rt world ev s)) \<and> loc (step rt world ev s) \<noteq> NotStarted
       \<and> cycle_no (step rt world ev s) = cycle_no s"
proof (cases ev)
  case Stop
  with assms show ?thesis by (simp add: stop_def)
next
  case Resume
  show ?thesis
  proof (cases "loc s")
    case InCycle
    with Resume assms show ?thesis
      by (cases "run_check_cycle rt (service s) (world (cycle_no s))")
         (simp_all add: run_step_def run_check_cycle_running)
  qed (use Resume assms in \<open>simp_all add: run_step_def\<close>)
qed

lemma exec_stopped:
  assumes "\<not> running (service s)" and "loc s \<noteq> NotStarted"
  shows "cycle_no (exec rt world evs s) = cycle_no s"
  using assms
proof (induction evs arbitrary: s)
  case Nil
  show ?case by simp
next
  case (Cons ev evs)
  from step_stopped [OF Cons.prems, of rt world ev] Cons.IH [of "step rt world ev s"]
  show ?case by simp
qed

lemma step_asleep_stopped:
  assumes "\<not> running (service s)" and "loc s = InSleep \<or> loc s = Returned"
  shows "\<not> running (service (step rt world ev s))
       \<and> (loc (step rt world ev s) = InSleep \<or> loc (step rt world ev s) = Returned)
       \<and> health_checker (service (step rt world ev s)) = health_checker (service s)
       \<and> reported (service (step rt world ev s)) = reported (service s)"
  using assms by (cases ev) (auto simp: run_step_def stop_def)

lemma exec_asleep_stopped:
  assumes "\<not> running (service s)" and "loc s = InSleep \<or> loc s = Returned"
  shows "(loc (exec rt world evs s) = InSleep \<or> loc (exec rt world evs s) = Returned)
       \<and> health_checker (service (exec rt world evs s)) = health_checker (service s)
       \<and> reported (service (exec rt world evs s)) = reported (service s)"
  using assms
proof (induction evs arbitrary: s)
  case Nil
  then show ?case by simp
next
  case (Cons ev evs)
  from step_asleep_stopped [OF Cons.prems, of rt world ev]
    Cons.IH [of "step rt world ev s"]
  show ?case by simp
qed

lemma stop_takes_effect:
  "(running (stop svc) = False \<and> health_checker (stop svc) = health_checker svc
      \<and> reported (stop svc) = reported svc)
   \<and> (loc (step rt world Stop s) = loc s \<and> cycle_no (step rt world Stop s) = cycle_no s)
   \<and> (loc s = InSleep \<longrightarrow>
        exec rt world [Stop, Resume] s = s\<lparr>service := stop (service s), loc := Returned\<rparr>
        \<and> (\<forall>evs. cycle_no (exec rt world (Stop # evs) s) = cycle_no s
              \<and> (loc (exec rt world (Stop # evs) s) = InSleep
                   \<or> loc (exec rt world (Stop # evs) s) = Returned)
              \<and> health_checker (service (exec rt world (Stop # evs) s))
                   = health_checker (service s)
              \<and> reported (service (exec rt world (Stop # evs) s)) = reported (service s)))
   \<and> (loc s = InCycle \<longrightarrow>
        exec rt world [Stop, Resume] s = exec rt world [Resume, Stop] s
        \<and> (\<forall>svc'. run_check_cycle rt (service s) (world (cycle_no s)) = Inr svc' \<longrightarrow>
              exec rt world [Stop, Resume] s = s\<lparr>service := stop svc', loc := InSleep\<rparr>
              \<and> exec rt world [Stop, Resume, Resume] s
                   = s\<lparr>service := stop svc', loc := Returned\<rparr>)
        \<and> (\<forall>evs. cycle_no (exec rt world (Stop # evs) s) = cycle_no s))"
proof (intro conjI impI allI)
  show "running (stop svc) = False" "health_checker (stop svc) = health_checker svc"
    "reported (stop svc) = reported svc"
    by (simp_all add: stop_def)
  show "loc (step rt world Stop s) = loc s" "cycle_no (step rt world Stop s) = cycle_no s"
    by simp_all
next
  assume "loc s = InSleep"
  then show "exec rt world [Stop, Resume] s = s\<lparr>service := stop (service s), loc := Returned\<rparr>"
    by (simp add: run_step_def stop_def)
next
  fix evs
  assume sl: "loc s = InSleep"
  have 1: "\<not> running (service (step rt world Stop s))" by (simp add: stop_def)
  have 2: "loc (step rt world Stop s) = InSleep \<or> loc (step rt world Stop s) = Returned"
    using sl by simp
  have 3: "loc (step rt world Stop s) \<noteq> NotStarted" using sl by simp
  from exec_stopped [OF 1 3, of rt world evs]
  show "cycle_no (exec rt world (Stop # evs) s) = cycle_no s" by simp
  from exec_asleep_stopped [OF 1 2, of rt world evs]
  show "loc (exec rt world (Stop # evs) s) = InSleep
          \<or> loc (exec rt world (Stop # evs) s) = Returned"
    "health_checker (service (exec rt world (Stop # evs) s)) = health_checker (service s)"
    "reported (service (exec rt world (Stop # evs) s)) = reported (service s)"
    by (simp_all add: stop_def)
next
  assume "loc s = InCycle"
  from stop_commutes_in_cycle [OF this, of rt world]
  show "exec rt world [Stop, Resume] s = exec rt world [Resume, Stop] s" by simp
next
  fix svc'
  assume c: "loc s = InCycle"
    and r: "run_check_cycle rt (service s) (world (cycle_no s)) = Inr svc'"
  show "exec rt world [Stop, Resume] s = s\<lparr>service := stop svc', loc := InSleep\<rparr>"
    using c r by (simp add: run_step_def run_check_cycle_stop)
  show "exec rt world [Stop, Resume, Resume] s = s\<lparr>service := stop svc', loc := Returned\<rparr>"
    using c r by (simp add: run_step_def run_check_cycle_stop) (simp add: stop_def)
next
  fix evs
  assume c: "loc s = InCycle"
  have 1: "\<not> running (service (step rt world Stop s))" by (simp add: stop_def)
  have 3: "loc (step rt world Stop s) \<noteq> NotStarted" using c by simp
  from exec_stopped [OF 1 3, of rt world evs]
  show "cycle_no (exec rt world (Stop # evs) s) = cycle_no s" by simp
qed


lemma sample_cycle:
  "check_all_endpoints sample_runtime
     \<lparr>endpoints = [sample_endpoint], results = Map.empty, timeout = 5\<rparr> (sample_world n)
   = Inr \<lparr>endpoints = [sample_endpoint],
          results = [''example.com'' \<mapsto>
            [\<lparr>endpoint_name = ''api'', domain = ''example.com'',
              response_time_ms = Finite 100, status_code = 200, timestamp = 1700000000\<rparr>]],
          timeout = 5\<rparr>"
  by (simp add: check_all_endpoints_def cycle_results_def probe_eval sample_domain
      sample_fields record_result_def bucket_def sample_world_def)

lemma run_check_cycle_flag:
  "run_check_cycle rt (svc\<lparr>running := b\<rparr>) net
     = map_sum id (\<lambda>svc'. svc'\<lparr>running := b\<rparr>) (run_check_cycle rt svc net)"
  by (simp add: run_check_cycle_def get_availability_stats_def split: sum.splits)

lemma step_running:
  assumes "Stop \<notin> set [ev]"
    and "loc s = NotStarted \<or> (running (service s) \<and> loc s \<noteq> Returned)"
  shows "running (service (step rt world ev s)) \<and> loc (step rt world ev s) \<noteq> Returned
       \<and> loc (step rt world ev s) \<noteq> NotStarted"
proof -
  from assms(1) have ev: "ev = Resume" by (cases ev) simp_all
  show ?thesis
  proof (cases "loc s")
    case InCycle
    with ev assms(2) show ?thesis
      by (cases "run_check_cycle rt (service s) (world (cycle_no s))")
         (simp_all add: run_step_def run_check_cycle_running)
  qed (use ev assms(2) in \<open>simp_all add: run_step_def\<close>)
qed

lemma exec_running:
  assumes "Stop \<notin> set evs"
    and "loc s = NotStarted \<or> (running (service s) \<and> loc s \<noteq> Returned)"
  shows "loc (exec rt world evs s) \<noteq> Returned"
  using assms
proof (induction evs arbitrary: s)
  case Nil
  then show ?case
    by auto
next
  case (Cons ev evs)
  from Cons.prems(1) have 1: "Stop \<notin> set [ev]" and 2: "Stop \<notin> set evs" by auto
  from step_running [OF 1 Cons.prems(2), of rt world]
  have "loc (step rt world ev s) = NotStarted
          \<or> (running (service (step rt world ev s)) \<and> loc (step rt world ev s) \<noteq> Returned)"
    by simp
  from Cons.IH [OF 2 this] show ?case by simp
qed

lemma loop_runs_while_flag_set:
  "(loc s = NotStarted \<longrightarrow>
      step rt world Resume s
        = s\<lparr>service := (service s)\<lparr>running := True\<rparr>, loc := InCycle,
             cycle_no := cycle_no s + 1\<rparr>)
   \<and> (loc s = InSleep \<and> running (service s) \<longrightarrow>
        step rt world Resume s = s\<lparr>loc := InCycle, cycle_no := cycle_no s + 1\<rparr>)
   \<and> (loc s = InSleep \<longrightarrow>
        (loc (step rt world Resume s) = Returned \<longleftrightarrow> \<not> running (service s)))
   \<and> (loc s = InCycle \<longrightarrow>
        loc (step rt world Resume s) \<noteq> Returned
        \<and> (\<forall>b. step rt world Resume (s\<lparr>service := (service s)\<lparr>running := b\<rparr>\<rparr>)
               = (step rt world Resume s)
                   \<lparr>service := (service (step rt world Resume s))\<lparr>running := b\<rparr>\<rparr>)
        \<and> (\<forall>svc'. running (service s)
               \<and> run_check_cycle rt (service s) (world (cycle_no s)) = Inr svc' \<longrightarrow>
               exec rt world [Resume, Resume] s
                 = s\<lparr>service := svc', loc := InCycle, cycle_no := cycle_no s + 1\<rparr>))
   \<and> (\<forall>evs. Stop \<notin> set evs
         \<and> (loc s = NotStarted \<or> (running (service s) \<and> loc s \<noteq> Returned)) \<longrightarrow>
         loc (exec rt world evs s) \<noteq> Returned)"
proof (intro conjI impI allI)
  assume "loc s = NotStarted"
  then show "step rt world Resume s
        = s\<lparr>service := (service s)\<lparr>running := True\<rparr>, loc := InCycle,
             cycle_no := cycle_no s + 1\<rparr>"
    by (simp add: run_step_def)
next
  assume "loc s = InSleep \<and> running (service s)"
  then show "step rt world Resume s = s\<lparr>loc := InCycle, cycle_no := cycle_no s + 1\<rparr>"
    by (simp add: run_step_def)
next
  assume "loc s = InSleep"
  then show "(loc (step rt world Resume s) = Returned) = (\<not> running (service s))"
    by (simp add: run_step_def)
next
  assume c: "loc s = InCycle"
  show "loc (step rt world Resume s) \<noteq> Returned"
    using c by (cases "run_check_cycle rt (service s) (world (cycle_no s))")
      (simp_all add: run_step_def)
next
  fix b
  assume c: "loc s = InCycle"
  show "step rt world Resume (s\<lparr>service := (service s)\<lparr>running := b\<rparr>\<rparr>)
          = (step rt world Resume s)
              \<lparr>service := (service (step rt world Resume s))\<lparr>running := b\<rparr>\<rparr>"
    using c by (cases "run_check_cycle rt (service s) (world (cycle_no s))")
      (simp_all add: run_step_def run_check_cycle_flag)
next
  fix svc'
  assume c: "loc s = InCycle"
    and r: "running (service s)
            \<and> run_check_cycle rt (service s) (world (cycle_no s)) = Inr svc'"
  from r run_check_cycle_running have "running svc'" by blast
  with c r show "exec rt world [Resume, Resume] s
                   = s\<lparr>service := svc', loc := InCycle, cycle_no := cycle_no s + 1\<rparr>"
    by (simp add: run_step_def)
next
  fix evs
  assume "Stop \<notin> set evs
          \<and> (loc s = NotStarted \<or> (running (service s) \<and> loc s \<noteq> Returned))"
  then show "loc (exec rt world evs s) \<noteq> Returned"
    using exec_running by blast
qed

text \<open>
  C6. \<^verbatim>\<open>run\<close> sets \<^verbatim>\<open>running\<close> and starts the first cycle; while the flag is set, each sleep is
  followed by the next cycle, and without a call of \<^verbatim>\<open>stop\<close> the loop never returns. The flag
  is read only after the sleep: there the loop returns exactly when the flag is false, and
  within a cycle the flag changes nothing. \<^verbatim>\<open>stop\<close> sets \<^verbatim>\<open>running\<close> to false and touches
  nothing else, neither the checker nor the place where the loop is waiting. Called during
  the sleep, the loop returns at its next step, and whatever happens afterwards no new cycle
  starts and the checker and the reports stay as they are. Called during a cycle, the cycle
  ends exactly as it would have without the call (the same results recorded, the same
  report), the sleep follows, and then the loop returns without starting another cycle.
\<close>

theorem stop_observed_between_cycles:
  "((running (stop svc) = False \<and> health_checker (stop svc) = health_checker svc
      \<and> reported (stop svc) = reported svc)
   \<and> (loc (step rt world Stop s) = loc s \<and> cycle_no (step rt world Stop s) = cycle_no s)
   \<and> (loc s = InSleep \<longrightarrow>
        exec rt world [Stop, Resume] s = s\<lparr>service := stop (service s), loc := Returned\<rparr>
        \<and> (\<forall>evs. cycle_no (exec rt world (Stop # evs) s) = cycle_no s
              \<and> (loc (exec rt world (Stop # evs) s) = InSleep
                   \<or> loc (exec rt world (Stop # evs) s) = Returned)
              \<and> health_checker (service (exec rt world (Stop # evs) s))
                   = health_checker (service s)
              \<and> reported (service (exec rt world (Stop # evs) s)) = reported (service s)))
   \<and> (loc s = InCycle \<longrightarrow>
        exec rt world [Stop, Resume] s = exec rt world [Resume, Stop] s
        \<and> (\<forall>svc'. run_check_cycle rt (service s) (world (cycle_no s)) = Inr svc' \<longrightarrow>
              exec rt world [Stop, Resume] s = s\<lparr>service := stop svc', loc := InSleep\<rparr>
              \<and> exec rt world [Stop, Resume, Resume] s
                   = s\<lparr>service := stop svc', loc := Returned\<rparr>)
        \<and> (\<forall>evs. cycle_no (exec rt world (Stop # evs) s) = cycle_no s)))
   \<and> ((loc s = NotStarted \<longrightarrow>
      step rt world Resume s
        = s\<lparr>service := (service s)\<lparr>running := True\<rparr>, loc := InCycle,
             cycle_no := cycle_no s + 1\<rparr>)
   \<and> (loc s = InSleep \<and> running (service s) \<longrightarrow>
        step rt world Resume s = s\<lparr>loc := InCycle, cycle_no := cycle_no s + 1\<rparr>)
   \<and> (loc s = InSleep \<longrightarrow>
        (loc (step rt world Resume s) = Returned \<longleftrightarrow> \<not> running (service s)))
   \<and> (loc s = InCycle \<longrightarrow>
        loc (step rt world Resume s) \<noteq> Returned
        \<and> (\<forall>b. step rt world Resume (s\<lparr>service := (service s)\<lparr>running := b\<rparr>\<rparr>)
               = (step rt world Resume s)
                   \<lparr>service := (service (step rt world Resume s))\<lparr>running := b\<rparr>\<rparr>)
        \<and> (\<forall>svc'. running (service s)
               \<and> run_check_cycle rt (service s) (world (cycle_no s)) = Inr svc' \<longrightarrow>
               exec rt world [Resume, Resume] s
                 = s\<lparr>service := svc', loc := InCycle, cycle_no := cycle_no s + 1\<rparr>))
   \<and> (\<forall>evs. Stop \<notin> set evs
         \<and> (loc s = NotStarted \<or> (running (service s) \<and> loc s \<noteq> Returned)) \<longrightarrow>
         loc (exec rt world evs s) \<noteq> Returned))"
  by (rule conjI [OF stop_takes_effect loop_runs_while_flag_set])

theorem stop_observed_between_cycles_witness:
  "loc (exec sample_runtime sample_world [Resume] sample_start) = InCycle
   \<and> running (service (exec sample_runtime sample_world [Resume] sample_start))
   \<and> loc (exec sample_runtime sample_world [Resume, Resume] sample_start) = InSleep
   \<and> loc (exec sample_runtime sample_world [Resume, Resume, Resume] sample_start) = InCycle
   \<and> cycle_no (exec sample_runtime sample_world [Resume, Resume, Resume] sample_start) = 2
   \<and> loc (exec sample_runtime sample_world [Resume, Resume, Stop, Resume] sample_start)
       = Returned
   \<and> cycle_no (exec sample_runtime sample_world
        [Resume, Resume, Stop, Resume, Resume, Resume] sample_start) = 1
   \<and> loc (exec sample_runtime sample_world [Resume, Stop, Resume] sample_start) = InSleep
   \<and> results (health_checker (service
         (exec sample_runtime sample_world [Resume, Stop, Resume] sample_start)))
         ''example.com''
       = Some [\<lparr>endpoint_name = ''api'', domain = ''example.com'',
                response_time_ms = Finite 100, status_code = 200, timestamp = 1700000000\<rparr>]
   \<and> length (reported (service
         (exec sample_runtime sample_world [Resume, Stop, Resume] sample_start))) = 1
   \<and> loc (exec sample_runtime sample_world [Resume, Stop, Resume, Resume] sample_start)
       = Returned"
proof -
  define s1 where "s1 = exec sample_runtime sample_world [Resume] sample_start"
  define s2 where "s2 = exec sample_runtime sample_world [Resume, Resume] sample_start"
  note ev = sample_start_def MonitoringService_init_def HealthChecker_init_def run_step_def
    run_check_cycle_def sample_cycle get_availability_stats_def stop_def
  have l0: "loc sample_start = NotStarted" by (simp add: sample_start_def)
  have l1: "loc s1 = InCycle" by (simp add: s1_def ev)
  have l2: "loc s2 = InSleep" by (simp add: s2_def ev)
  have r2: "running (service s2)" by (simp add: s2_def ev)
  note t0 = stop_observed_between_cycles [of "service sample_start" sample_runtime
      sample_world sample_start]
  note t2 = stop_observed_between_cycles [of "service sample_start" sample_runtime
      sample_world s2]
  from t0 l0 have "step sample_runtime sample_world Resume sample_start
        = sample_start\<lparr>service := (service sample_start)\<lparr>running := True\<rparr>, loc := InCycle,
             cycle_no := cycle_no sample_start + 1\<rparr>"
    by blast
  then have A: "loc s1 = InCycle \<and> running (service s1)" by (simp add: s1_def)
  from t2 l2 r2 have "step sample_runtime sample_world Resume s2
        = s2\<lparr>loc := InCycle, cycle_no := cycle_no s2 + 1\<rparr>"
    by blast
  then have B: "loc (exec sample_runtime sample_world [Resume, Resume, Resume] sample_start)
                  = InCycle"
    by (simp add: s2_def)
  from t2 l2 have "exec sample_runtime sample_world [Stop, Resume] s2
        = s2\<lparr>service := stop (service s2), loc := Returned\<rparr>"
    by blast
  then have C: "loc (exec sample_runtime sample_world [Resume, Resume, Stop, Resume]
                  sample_start) = Returned"
    by (simp add: s2_def)
  have D: "cycle_no (exec sample_runtime sample_world [Resume, Resume, Resume] sample_start)
             = 2"
    "cycle_no (exec sample_runtime sample_world
        [Resume, Resume, Stop, Resume, Resume, Resume] sample_start) = 1"
    "loc (exec sample_runtime sample_world [Resume, Stop, Resume] sample_start) = InSleep"
    "results (health_checker (service
         (exec sample_runtime sample_world [Resume, Stop, Resume] sample_start)))
         ''example.com''
       = Some [\<lparr>endpoint_name = ''api'', domain = ''example.com'',
                response_time_ms = Finite 100, status_code = 200, timestamp = 1700000000\<rparr>]"
    "length (reported (service
         (exec sample_runtime sample_world [Resume, Stop, Resume] sample_start))) = 1"
    "loc (exec sample_runtime sample_world [Resume, Stop, Resume, Resume] sample_start)
       = Returned"
    by (simp_all add: ev)
  from A B C D l2 show ?thesis unfolding s1_def s2_def by (intro conjI) simp_all
qed

end
